theory Spec2Isabelle
  imports Main
begin

section \<open>Object meta-model (eaMetaModel.ts)\<close>

text \<open>
  Object types, layers and scopes are plain strings in the source, and every function below
  can be handed any string at run time, so they stay strings here. A value of type
  \<open>string | null | undefined\<close> is a \<open>string option\<close>; the source never tells
  \<open>null\<close> from \<open>undefined\<close> in the functions modelled.
\<close>

definition OBJECT_TYPES :: "string list" where
  "OBJECT_TYPES =
     [''CapabilityCategory'', ''Capability'', ''SubCapability'', ''BusinessProcess'',
      ''Department'', ''Application'', ''Technology'', ''Programme'', ''Project'',
      ''Principle'', ''Requirement'']"

text \<open>\<open>OBJECT_TYPE_DEFINITIONS[objectType]?.layer\<close>: the layer column of the table,
  \<open>None\<close> for a key the table does not have.\<close>

definition OBJECT_TYPE_DEFINITIONS_layer :: "string \<Rightarrow> string option" where
  "OBJECT_TYPE_DEFINITIONS_layer objectType =
     (if objectType = ''Programme'' then Some ''Strategy''
      else if objectType = ''Project'' then Some ''Strategy''
      else if objectType = ''Principle'' then Some ''Strategy''
      else if objectType = ''Requirement'' then Some ''Strategy''
      else if objectType = ''CapabilityCategory'' then Some ''Business''
      else if objectType = ''Capability'' then Some ''Business''
      else if objectType = ''SubCapability'' then Some ''Business''
      else if objectType = ''BusinessProcess'' then Some ''Business''
      else if objectType = ''Department'' then Some ''Business''
      else if objectType = ''Application'' then Some ''Application''
      else if objectType = ''Technology'' then Some ''Technology''
      else None)"

definition isValidObjectType :: "string \<Rightarrow> bool" where
  "isValidObjectType t = (t \<in> set OBJECT_TYPES)"


section \<open>Scope write policy (architectureScopePolicy)\<close>

definition isObjectTypeWritableForScope :: "string option \<Rightarrow> string \<Rightarrow> bool" where
  "isObjectTypeWritableForScope architectureScope objectType =
     (let layer = OBJECT_TYPE_DEFINITIONS_layer objectType in
      if architectureScope = Some ''Programme''
        then objectType = ''Programme'' \<or> objectType = ''Project''
      else if architectureScope = Some ''Business Unit''
        then layer = Some ''Business'' \<or> layer = Some ''Application''
      else if architectureScope = Some ''Domain''
        then layer = Some ''Application'' \<or> layer = Some ''Technology''
      else True)"

text \<open>\<open>!objectType\<close> holds for \<open>null\<close>, \<open>undefined\<close> and the empty string.\<close>

definition isAnyObjectTypeWritableForScope :: "string option \<Rightarrow> string option \<Rightarrow> bool" where
  "isAnyObjectTypeWritableForScope architectureScope objectType =
     (case objectType of
        None \<Rightarrow> False
      | Some t \<Rightarrow>
          if t = [] then False
          else if \<not> isValidObjectType t then False
          else isObjectTypeWritableForScope architectureScope t)"

definition getReadOnlyReason :: "string option \<Rightarrow> string option \<Rightarrow> string option" where
  "getReadOnlyReason architectureScope objectType =
     (if (case objectType of None \<Rightarrow> True | Some t \<Rightarrow> t = [] \<or> \<not> isValidObjectType t) then
        (if architectureScope = Some ''Programme'' then Some ''Read-only in Programme scope.''
         else if architectureScope = Some ''Business Unit''
           then Some ''Read-only in Business Unit scope.''
         else if architectureScope = Some ''Domain'' then Some ''Read-only in Domain scope.''
         else None)
      else
        (let t = the objectType; layer = OBJECT_TYPE_DEFINITIONS_layer t in
         if architectureScope = Some ''Business Unit'' then
           (if layer = Some ''Business'' \<or> layer = Some ''Application'' then None
            else Some ''Read-only in Business Unit scope: only Business + Application layers are editable.'')
         else if architectureScope = Some ''Domain'' then
           (if layer = Some ''Application'' \<or> layer = Some ''Technology'' then None
            else Some ''Read-only in Domain scope: only Application + Technology layers are editable.'')
         else if architectureScope = Some ''Programme'' then
           (if t = ''Programme'' \<or> t = ''Project'' then None
            else Some ''Read-only in Programme scope: only Programme + Project elements are editable.'')
         else None))"


section \<open>JSON values\<close>

text \<open>
  Attribute values and snapshots are JSON data: they reach the repository through
  \<open>JSON.parse\<close> and leave it through \<open>JSON.stringify\<close>. An object is the list of
  its own keys with their values, in the order the engine enumerates them. Numbers are
  integers here; fractional numbers are outside this model.
\<close>

datatype json =
    JNull
  | JBool bool
  | JNum int
  | JStr string
  | JArr "json list"
  | JObj "(string \<times> json) list"

text \<open>Property read \<open>value?.key\<close>: \<open>None\<close> stands for \<open>undefined\<close>.\<close>

fun json_field :: "json \<Rightarrow> string \<Rightarrow> json option" where
  "json_field (JObj kvs) k = map_of kvs k"
| "json_field _ k = None"

text \<open>The keys of an object, in order.\<close>

fun json_keys :: "json \<Rightarrow> string list" where
  "json_keys (JObj kvs) = map fst kvs"
| "json_keys v = []"

fun digit_char :: "nat \<Rightarrow> char" where
  "digit_char n = char_of (48 + n)"

function show_nat :: "nat \<Rightarrow> string" where
  "show_nat n = (if n < 10 then [digit_char n] else show_nat (n div 10) @ [digit_char (n mod 10)])"
  by pat_completeness auto
termination
  by (relation "measure (\<lambda>n. n)") auto

declare show_nat.simps [simp del]

definition show_int :: "int \<Rightarrow> string" where
  "show_int i = (if i < 0 then CHR ''-'' # show_nat (nat (- i)) else show_nat (nat i))"

fun hex_char :: "nat \<Rightarrow> char" where
  "hex_char n = (if n < 10 then char_of (48 + n) else char_of (87 + n))"

text \<open>\<open>JSON.stringify\<close> on a string: quotes, and escapes for the quote, the backslash and
  the control characters.\<close>

definition json_escape_char :: "char \<Rightarrow> string" where
  "json_escape_char c =
     (let n = (of_char c :: nat) in
      if c = CHR 0x22 then [CHR 0x5C, CHR 0x22]
      else if n = 0x5C then [CHR 0x5C, CHR 0x5C]
      else if n = 8 then [CHR 0x5C, CHR ''b'']
      else if n = 9 then [CHR 0x5C, CHR ''t'']
      else if n = 10 then [CHR 0x5C, CHR ''n'']
      else if n = 12 then [CHR 0x5C, CHR ''f'']
      else if n = 13 then [CHR 0x5C, CHR ''r'']
      else if n < 32 then [CHR 0x5C, CHR ''u'', CHR ''0'', CHR ''0'', hex_char (n div 16), hex_char (n mod 16)]
      else [c])"

definition JSON_stringify_string :: "string \<Rightarrow> string" where
  "JSON_stringify_string s = [CHR 0x22] @ concat (map json_escape_char s) @ [CHR 0x22]"

fun join :: "string \<Rightarrow> string list \<Rightarrow> string" where
  "join sep [] = []"
| "join sep [x] = x"
| "join sep (x # y # ys) = x @ sep @ join sep (y # ys)"

text \<open>
  \<open>keys.sort((a, b) => a.localeCompare(b))\<close>: a stable sort of the keys. The collation
  of \<open>localeCompare\<close> belongs to the host; it is modelled by the order of the character
  codes.
\<close>

fun localeCompare_le :: "string \<Rightarrow> string \<Rightarrow> bool" where
  "localeCompare_le [] b = True"
| "localeCompare_le (x # xs) [] = False"
| "localeCompare_le (x # xs) (y # ys) =
     ((of_char x :: nat) < of_char y \<or> (x = y \<and> localeCompare_le xs ys))"

fun insert_sorted :: "(string \<times> 'a) \<Rightarrow> (string \<times> 'a) list \<Rightarrow> (string \<times> 'a) list" where
  "insert_sorted p [] = [p]"
| "insert_sorted p (q # qs) =
     (if localeCompare_le (fst p) (fst q) then p # q # qs else q # insert_sorted p qs)"

fun sort_by_key :: "(string \<times> 'a) list \<Rightarrow> (string \<times> 'a) list" where
  "sort_by_key [] = []"
| "sort_by_key (p # ps) = insert_sorted p (sort_by_key ps)"

text \<open>
  \<open>stableStringify\<close>. The branches for \<open>undefined\<close> and for non-object, non-primitive
  values do not arise for JSON data. The entries are rendered first and sorted by key
  afterwards, which gives the text the source builds by sorting the keys first.
\<close>

fun stableStringify :: "json \<Rightarrow> string" where
  "stableStringify JNull = ''null''"
| "stableStringify (JStr s) = JSON_stringify_string s"
| "stableStringify (JNum n) = show_int n"
| "stableStringify (JBool b) = (if b then ''true'' else ''false'')"
| "stableStringify (JArr vs) = ''['' @ join '','' (map stableStringify vs) @ '']''"
| "stableStringify (JObj kvs) =
     ''{'' @ join '',''
        (map (\<lambda>p. JSON_stringify_string (fst p) @ '':'' @ snd p)
          (sort_by_key (map (\<lambda>p. (fst p, stableStringify (snd p))) kvs))) @ ''}''"


text \<open>\<open>JSON.stringify\<close> of the host, on JSON data: the keys of an object in the order the
  value holds them.\<close>

fun JSON_stringify :: "json \<Rightarrow> string" where
  "JSON_stringify JNull = ''null''"
| "JSON_stringify (JBool b) = (if b then ''true'' else ''false'')"
| "JSON_stringify (JNum n) = show_int n"
| "JSON_stringify (JStr s) = JSON_stringify_string s"
| "JSON_stringify (JArr vs) = ''['' @ join '','' (map JSON_stringify vs) @ '']''"
| "JSON_stringify (JObj kvs) =
     ''{'' @ join '',''
        (map (\<lambda>p. JSON_stringify_string (fst p) @ '':'' @ JSON_stringify (snd p)) kvs) @ ''}''"


section \<open>The generic repository (EaRepository)\<close>

text \<open>
  \<open>EaObject\<close> is \<open>{ id, type, attributes }\<close> and \<open>EaRelationship\<close> is
  \<open>{ fromId, toId, type, attributes }\<close>. Every reader in the source takes
  \<open>attributes ?? {}\<close>, so missing attributes are the empty object. \<open>EaRepository.objects\<close>
  is a \<open>Map\<close> from object id to object: the list of its values in insertion order, looked
  up by id.
\<close>

record EaObject =
  objId :: string
  objType :: string
  objAttributes :: "(string \<times> json) list"

record EaRelationship =
  fromId :: string
  toId :: string
  relType :: string
  relAttributes :: "(string \<times> json) list"

record EaRepository =
  objects :: "EaObject list"
  relationships :: "EaRelationship list"

definition objects_keys :: "EaRepository \<Rightarrow> string list" where
  "objects_keys repo = map objId (objects repo)"

definition objects_get :: "EaRepository \<Rightarrow> string \<Rightarrow> EaObject option" where
  "objects_get repo k = find (\<lambda>ob. objId ob = k) (objects repo)"

text \<open>\<open>Set.add\<close>, keeping insertion order.\<close>

definition Set_add :: "'a \<Rightarrow> 'a list \<Rightarrow> 'a list" where
  "Set_add x xs = (if x \<in> set xs then xs else xs @ [x])"


section \<open>Scope check at the model-update boundary\<close>

text \<open>The body of the \<open>for (const id of ids)\<close> loop of \<open>hasReadOnlyObjectChanges\<close>.\<close>

fun readOnlyChange_loop ::
  "string option \<Rightarrow> EaRepository \<Rightarrow> EaRepository \<Rightarrow> string list \<Rightarrow> bool" where
  "readOnlyChange_loop architectureScope prev next [] = False"
| "readOnlyChange_loop architectureScope prev next (i # ids) =
     (let a = objects_get prev i;
          b = objects_get next i;
          typeA = map_option objType a;
          typeB = map_option objType b;
          writableA = isAnyObjectTypeWritableForScope architectureScope typeA;
          writableB = isAnyObjectTypeWritableForScope architectureScope typeB
      in if \<not> writableA \<or> \<not> writableB then
           (if a = None \<or> b = None then True
            else if objType (the a) \<noteq> objType (the b) then True
            else if stableStringify (JObj (objAttributes (the a)))
                    \<noteq> stableStringify (JObj (objAttributes (the b))) then True
            else readOnlyChange_loop architectureScope prev next ids)
         else readOnlyChange_loop architectureScope prev next ids)"

definition hasReadOnlyObjectChanges ::
  "EaRepository option \<Rightarrow> EaRepository option \<Rightarrow> string option \<Rightarrow> bool" where
  "hasReadOnlyObjectChanges prev next architectureScope =
     (if architectureScope \<noteq> Some ''Business Unit'' \<and> architectureScope \<noteq> Some ''Domain''
        then False
      else case prev of
        None \<Rightarrow> False
      | Some p \<Rightarrow>
          (case next of
             None \<Rightarrow> False
           | Some n \<Rightarrow>
               readOnlyChange_loop architectureScope p n
                 (foldl (\<lambda>ids i. Set_add i ids) (foldl (\<lambda>ids i. Set_add i ids) [] (objects_keys p))
                    (objects_keys n))))"


section \<open>Relationship semantics (RelationshipSemantics.ts)\<close>

record RelationshipEndpointRule =
  rule_from :: "string list"
  rule_to :: "string list"

text \<open>\<open>String.prototype.trim\<close>, on the ASCII white space.\<close>

definition is_whitespace :: "char \<Rightarrow> bool" where
  "is_whitespace c = (c = CHR '' '' \<or> c = CHR 0x09 \<or> c = CHR 0x0A \<or> c = CHR 0x0B
                      \<or> c = CHR 0x0C \<or> c = CHR 0x0D)"

definition trim :: "string \<Rightarrow> string" where
  "trim s = rev (dropWhile is_whitespace (rev (dropWhile is_whitespace s)))"

text \<open>The table \<open>RELATIONSHIP_ENDPOINT_RULES\<close>, read at its own keys.\<close>

definition RELATIONSHIP_ENDPOINT_RULES :: "string \<Rightarrow> RelationshipEndpointRule option" where
  "RELATIONSHIP_ENDPOINT_RULES key =
     (if key = ''DECOMPOSES_TO''
        then Some \<lparr>rule_from = [''Capability''], rule_to = [''BusinessProcess'']\<rparr>
      else if key = ''REALIZED_BY''
        then Some \<lparr>rule_from = [''BusinessProcess''], rule_to = [''Application'']\<rparr>
      else if key = ''DEPENDS_ON''
        then Some \<lparr>rule_from = [''Application''], rule_to = [''Application'']\<rparr>
      else if key = ''HOSTED_ON''
        then Some \<lparr>rule_from = [''Application''], rule_to = [''Technology'']\<rparr>
      else if key = ''IMPACTS''
        then Some \<lparr>rule_from = [''Programme''],
                    rule_to = [''Capability'', ''Application'', ''Technology'']\<rparr>
      else None)"

definition getRelationshipEndpointRule :: "string \<Rightarrow> RelationshipEndpointRule option" where
  "getRelationshipEndpointRule type = (let key = trim type in RELATIONSHIP_ENDPOINT_RULES key)"

definition isKnownRelationshipType :: "string \<Rightarrow> bool" where
  "isKnownRelationshipType type = (getRelationshipEndpointRule type \<noteq> None)"


section \<open>The typed element store (ArchitectureRepository)\<close>

text \<open>
  A typed element carries \<open>id\<close>, \<open>name\<close>, \<open>elementType\<close> and \<open>layer\<close>, and the
  other fields of its record (\<open>elemFields\<close>, in the order the projection writes them; a
  field set to \<open>undefined\<close> is left out).
\<close>

record BaseArchitectureElement =
  elemId :: string
  elemName :: string
  elementType :: string
  layer :: string
  elemFields :: "(string \<times> json) list"

datatype RepositoryCollectionType =
  Capabilities | BusinessProcesses | Applications | Technologies | Programmes

fun collectionName :: "RepositoryCollectionType \<Rightarrow> string" where
  "collectionName Capabilities = ''capabilities''"
| "collectionName BusinessProcesses = ''businessProcesses''"
| "collectionName Applications = ''applications''"
| "collectionName Technologies = ''technologies''"
| "collectionName Programmes = ''programmes''"

fun expectedElementType :: "RepositoryCollectionType \<Rightarrow> string" where
  "expectedElementType Capabilities = ''Capability''"
| "expectedElementType BusinessProcesses = ''BusinessProcess''"
| "expectedElementType Applications = ''Application''"
| "expectedElementType Technologies = ''Technology''"
| "expectedElementType Programmes = ''Programme''"

definition isCapability :: "BaseArchitectureElement \<Rightarrow> bool" where
  "isCapability e = (elementType e = ''Capability'')"

definition isBusinessProcess :: "BaseArchitectureElement \<Rightarrow> bool" where
  "isBusinessProcess e = (elementType e = ''BusinessProcess'')"

definition isApplication :: "BaseArchitectureElement \<Rightarrow> bool" where
  "isApplication e = (elementType e = ''Application'')"

definition isTechnology :: "BaseArchitectureElement \<Rightarrow> bool" where
  "isTechnology e = (elementType e = ''Technology'')"

definition isProgramme :: "BaseArchitectureElement \<Rightarrow> bool" where
  "isProgramme e = (elementType e = ''Programme'')"

text \<open>A JavaScript \<open>Map\<close> with string keys: an association list in insertion order.
  \<open>Map_set\<close> replaces the value of a key in place and appends a new key.\<close>

definition Map_has :: "(string \<times> 'v) list \<Rightarrow> string \<Rightarrow> bool" where
  "Map_has m k = (k \<in> set (map fst m))"

definition Map_get :: "(string \<times> 'v) list \<Rightarrow> string \<Rightarrow> 'v option" where
  "Map_get m k = map_of m k"

fun Map_set :: "(string \<times> 'v) list \<Rightarrow> string \<Rightarrow> 'v \<Rightarrow> (string \<times> 'v) list" where
  "Map_set [] k v = [(k, v)]"
| "Map_set (p # ps) k v = (if fst p = k then (k, v) # ps else p # Map_set ps k v)"

definition Map_values :: "(string \<times> 'v) list \<Rightarrow> 'v list" where
  "Map_values m = map snd m"

record ArchitectureRepository =
  byId :: "(string \<times> BaseArchitectureElement) list"
  capabilities :: "(string \<times> BaseArchitectureElement) list"
  businessProcesses :: "(string \<times> BaseArchitectureElement) list"
  applications :: "(string \<times> BaseArchitectureElement) list"
  technologies :: "(string \<times> BaseArchitectureElement) list"
  programmes :: "(string \<times> BaseArchitectureElement) list"

definition createArchitectureRepository :: ArchitectureRepository where
  "createArchitectureRepository =
     \<lparr>byId = [], capabilities = [], businessProcesses = [], applications = [],
      technologies = [], programmes = []\<rparr>"

text \<open>\<open>addElement\<close> returns its result and the store after the call.\<close>

definition addElement ::
  "ArchitectureRepository \<Rightarrow> RepositoryCollectionType \<Rightarrow> BaseArchitectureElement
   \<Rightarrow> (string + unit) \<times> ArchitectureRepository" where
  "addElement r type element =
     (if Map_has (byId r) (elemId element) then (Inl (''Duplicate id: '' @ elemId element), r)
      else
        let expected = expectedElementType type in
        if elementType element \<noteq> expected then
          (Inl (''Rejected insert: elementType '' @ [CHR 0x27] @ elementType element @ [CHR 0x27]
                @ '' does not match collection '' @ [CHR 0x27] @ collectionName type @ [CHR 0x27]
                @ '' (expected '' @ [CHR 0x27] @ expected @ [CHR 0x27] @ '').''), r)
        else
          (case type of
             Capabilities \<Rightarrow>
               if \<not> isCapability element
                 then (Inl ''Rejected insert: element is not a Capability.'', r)
               else (Inr (),
                     r\<lparr>capabilities := Map_set (capabilities r) (elemId element) element,
                       byId := Map_set (byId r) (elemId element) element\<rparr>)
           | BusinessProcesses \<Rightarrow>
               if \<not> isBusinessProcess element
                 then (Inl ''Rejected insert: element is not a BusinessProcess.'', r)
               else (Inr (),
                     r\<lparr>businessProcesses := Map_set (businessProcesses r) (elemId element) element,
                       byId := Map_set (byId r) (elemId element) element\<rparr>)
           | Applications \<Rightarrow>
               if \<not> isApplication element
                 then (Inl ''Rejected insert: element is not an Application.'', r)
               else (Inr (),
                     r\<lparr>applications := Map_set (applications r) (elemId element) element,
                       byId := Map_set (byId r) (elemId element) element\<rparr>)
           | Technologies \<Rightarrow>
               if \<not> isTechnology element
                 then (Inl ''Rejected insert: element is not a Technology.'', r)
               else (Inr (),
                     r\<lparr>technologies := Map_set (technologies r) (elemId element) element,
                       byId := Map_set (byId r) (elemId element) element\<rparr>)
           | Programmes \<Rightarrow>
               if \<not> isProgramme element
                 then (Inl ''Rejected insert: element is not a Programme.'', r)
               else (Inr (),
                     r\<lparr>programmes := Map_set (programmes r) (elemId element) element,
                       byId := Map_set (byId r) (elemId element) element\<rparr>)))"

fun collection :: "RepositoryCollectionType \<Rightarrow> ArchitectureRepository
                   \<Rightarrow> (string \<times> BaseArchitectureElement) list" where
  "collection Capabilities r = capabilities r"
| "collection BusinessProcesses r = businessProcesses r"
| "collection Applications r = applications r"
| "collection Technologies r = technologies r"
| "collection Programmes r = programmes r"

definition getElementsByType ::
  "ArchitectureRepository \<Rightarrow> RepositoryCollectionType \<Rightarrow> BaseArchitectureElement list" where
  "getElementsByType r type = Map_values (collection type r)"

definition getElementById :: "ArchitectureRepository \<Rightarrow> string \<Rightarrow> BaseArchitectureElement option" where
  "getElementById r i = Map_get (byId r) i"

text \<open>The states an \<open>ArchitectureRepository\<close> can be in: its fields are private, so it is
  the empty store or the store after a call of \<open>addElement\<close>.\<close>

inductive reachable :: "ArchitectureRepository \<Rightarrow> bool" where
  reachable_new: "reachable createArchitectureRepository"
| reachable_add: "reachable r \<Longrightarrow> reachable (snd (addElement r type element))"


text \<open>What every reachable store satisfies: an element is filed under its own id, and the
  flat index has exactly the ids of the five collections.\<close>

definition store_inv :: "ArchitectureRepository \<Rightarrow> bool" where
  "store_inv r = ((\<forall>c k e. (k, e) \<in> set (collection c r) \<longrightarrow> elemId e = k)
                 \<and> (\<forall>k. Map_has (byId r) k = (\<exists>c. Map_has (collection c r) k)))"


section \<open>The relationship store (RelationshipRepository)\<close>

text \<open>
  The record that \<open>buildGovernanceDebt\<close> hands to \<open>addRelationship\<close>.
\<close>

record RelationshipRecord =
  relId :: string
  relationshipType :: string
  sourceElementId :: string
  sourceElementType :: string
  targetElementId :: string
  targetElementType :: string
  direction :: string
  status :: string
  effectiveFrom :: string
  effectiveTo :: "string option"
  rationale :: string
  confidenceLevel :: string
  lastReviewedAt :: string
  reviewedBy :: string
  createdAt :: string
  createdBy :: string
  dependencyStrength :: "json option"

datatype RelationshipError =
    UnknownEndpoint
  | UnknownType
  | EndpointTypeMismatch string string string

text \<open>
  Modelled from the spec: the class behind \<open>createRelationshipRepository\<close>
  (backend/repository/RelationshipRepository) is not among the sources. The store is the
  ordered sequence of accepted records; \<open>addRelationship\<close> checks, in this order, that both
  endpoint ids resolve in the Element Store, that the relationship type is known, and that
  the resolved element types are in the rule's allowed sets, and appends the record on
  success. The error of a type mismatch carries the relationship type and both ids.
\<close>

definition addRelationship ::
  "ArchitectureRepository \<Rightarrow> RelationshipRecord list \<Rightarrow> RelationshipRecord
   \<Rightarrow> (RelationshipError + string) \<times> RelationshipRecord list" where
  "addRelationship elements store record =
     (case getElementById elements (sourceElementId record) of
        None \<Rightarrow> (Inl UnknownEndpoint, store)
      | Some source \<Rightarrow>
          (case getElementById elements (targetElementId record) of
             None \<Rightarrow> (Inl UnknownEndpoint, store)
           | Some target \<Rightarrow>
               (case getRelationshipEndpointRule (relationshipType record) of
                  None \<Rightarrow> (Inl UnknownType, store)
                | Some rule \<Rightarrow>
                    if elementType source \<in> set (rule_from rule)
                       \<and> elementType target \<in> set (rule_to rule)
                      then (Inr (relId record), store @ [record])
                    else (Inl (EndpointTypeMismatch (relationshipType record)
                                 (sourceElementId record) (targetElementId record)), store))))"

text \<open>Modelled from the spec: the text of a relationship-store error, which the source
  splices into the entries of \<open>invalidRelationshipInserts\<close>.\<close>

fun relationshipErrorText :: "RelationshipError \<Rightarrow> string" where
  "relationshipErrorText UnknownEndpoint = ''UnknownEndpoint''"
| "relationshipErrorText UnknownType = ''UnknownType''"
| "relationshipErrorText (EndpointTypeMismatch t a b) =
     ''EndpointTypeMismatch: '' @ t @ '' '' @ a @ '' -> '' @ b"


section \<open>Repository metadata and the collaborators outside the sources\<close>

text \<open>
  Modelled from the spec: the type \<open>EaRepositoryMetadata\<close> (repository/repositoryMetadata is
  not among the sources), with the fields the spec lists. The source reads
  \<open>architectureScope\<close> as nullable.
\<close>

record EaRepositoryMetadata =
  repositoryName :: string
  organizationName :: string
  architectureScope :: "string option"
  referenceFramework :: string
  governanceMode :: string
  lifecycleCoverage :: string
  timeHorizon :: string
  metaCreatedAt :: string

text \<open>The reports of the two validation passes: the findings and the counts of
  \<open>summary.total\<close> and \<open>summary.bySeverity\<close>, each of which the source reads with
  \<open>?? 0\<close>.\<close>

record Finding =
  message :: string
  subject :: string

record RepositoryReport =
  repoFindings :: "Finding list"
  summaryTotal :: "nat option"

record RelationshipReport =
  relFindings :: "Finding list"
  bySeverityError :: "nat option"
  bySeverityWarning :: "nat option"

text \<open>
  Functions of the repository that the sources call and do not contain are parameters:
  \<open>validateRepositoryMetadata\<close>, the constructor \<open>new EaRepository({ objects, relationships })\<close>
  (which may throw: \<open>Inl\<close> holds the message), the two validation passes and
  \<open>getLifecycleStateFromAttributes\<close>.
\<close>

record Collaborators =
  validateRepositoryMetadata :: "json option \<Rightarrow> string + EaRepositoryMetadata"
  newEaRepository :: "json list \<Rightarrow> json list \<Rightarrow> string + EaRepository"
  validateArchitectureRepository :: "ArchitectureRepository \<Rightarrow> string \<Rightarrow> RepositoryReport"
  validateRelationshipRepository ::
    "ArchitectureRepository \<Rightarrow> RelationshipRecord list \<Rightarrow> string \<Rightarrow> RelationshipReport"
  getLifecycleStateFromAttributes :: "(string \<times> json) list \<Rightarrow> string option"


section \<open>Governance debt (governanceValidation)\<close>

record GovernanceDebtSummary =
  mandatoryFindingCount :: nat
  relationshipErrorCount :: nat
  relationshipWarningCount :: nat
  invalidRelationshipInsertCount :: nat
  lifecycleTagMissingCount :: nat
  total :: nat

record GovernanceDebt =
  summary :: GovernanceDebtSummary
  repoReport :: RepositoryReport
  relationshipReport :: RelationshipReport
  invalidRelationshipInserts :: "string list"
  lifecycleTagMissingIds :: "string list"

definition getString :: "json option \<Rightarrow> string" where
  "getString v = (case v of Some (JStr s) \<Rightarrow> s | _ \<Rightarrow> [])"

definition getNumber :: "json option \<Rightarrow> int" where
  "getNumber v = (case v of Some (JNum n) \<Rightarrow> n | _ \<Rightarrow> 0)"

definition getBool :: "json option \<Rightarrow> bool" where
  "getBool v = (v = Some (JBool True))"

text \<open>JavaScript truthiness, and \<open>value || fallback\<close>.\<close>

fun truthy :: "json option \<Rightarrow> bool" where
  "truthy None = False"
| "truthy (Some JNull) = False"
| "truthy (Some (JBool b)) = b"
| "truthy (Some (JNum n)) = (n \<noteq> 0)"
| "truthy (Some (JStr s)) = (s \<noteq> [])"
| "truthy (Some (JArr vs)) = True"
| "truthy (Some (JObj kvs)) = True"

definition or_else :: "json option \<Rightarrow> json \<Rightarrow> json" where
  "or_else v fallback = (if truthy v then the v else fallback)"

definition string_or :: "string \<Rightarrow> string \<Rightarrow> string" where
  "string_or s fallback = (if s \<noteq> [] then s else fallback)"

definition toBackendElementType :: "string \<Rightarrow> string" where
  "toBackendElementType eaType =
     (if eaType = ''Capability'' \<or> eaType = ''SubCapability'' \<or> eaType = ''CapabilityCategory''
        then ''Capability''
      else if eaType = ''BusinessProcess'' then ''BusinessProcess''
      else if eaType = ''Application'' then ''Application''
      else if eaType = ''Technology'' then ''Technology''
      else if eaType = ''Programme'' then ''Programme''
      else eaType)"

text \<open>The fields from \<open>description\<close> to \<open>lastModifiedBy\<close>, which the five branches of the
  projection write alike.\<close>

definition governedFields :: "(string \<times> json) list \<Rightarrow> string \<Rightarrow> (string \<times> json) list" where
  "governedFields attrs now =
     [(''description'', JStr (getString (map_of attrs ''description''))),
      (''lifecycleStatus'', or_else (map_of attrs ''lifecycleStatus'') (JStr ''Active'')),
      (''lifecycleStartDate'', JStr (getString (map_of attrs ''lifecycleStartDate'')))]
     @ (if getString (map_of attrs ''lifecycleEndDate'') \<noteq> []
          then [(''lifecycleEndDate'', JStr (getString (map_of attrs ''lifecycleEndDate'')))]
        else [])
     @ [(''ownerRole'', JStr (getString (map_of attrs ''ownerRole''))),
        (''ownerName'', JStr (getString (map_of attrs ''ownerName''))),
        (''owningUnit'', JStr (getString (map_of attrs ''owningUnit''))),
        (''approvalStatus'', or_else (map_of attrs ''approvalStatus'') (JStr ''Draft'')),
        (''lastReviewedAt'', JStr (getString (map_of attrs ''lastReviewedAt''))),
        (''reviewCycleMonths'', JNum (getNumber (map_of attrs ''reviewCycleMonths''))),
        (''createdAt'', JStr (string_or (getString (map_of attrs ''createdAt'')) now)),
        (''createdBy'', JStr (getString (map_of attrs ''createdBy''))),
        (''lastModifiedAt'', JStr (string_or (getString (map_of attrs ''lastModifiedAt'')) now)),
        (''lastModifiedBy'', JStr (getString (map_of attrs ''lastModifiedBy'')))]"

definition array_or_empty :: "json option \<Rightarrow> json" where
  "array_or_empty v = (case v of Some (JArr vs) \<Rightarrow> JArr vs | _ \<Rightarrow> JArr [])"

definition capabilityFields :: "(string \<times> json) list \<Rightarrow> (string \<times> json) list" where
  "capabilityFields attrs =
     [(''capabilityType'', or_else (map_of attrs ''capabilityType'') (JStr ''Core'')),
      (''businessValue'', or_else (map_of attrs ''businessValue'') (JStr ''Medium'')),
      (''maturityLevel'', or_else (map_of attrs ''maturityLevel'') (JStr ''Developing'')),
      (''parentCapabilityId'', JStr (getString (map_of attrs ''parentCapabilityId'')))]"

definition applicationFields :: "(string \<times> json) list \<Rightarrow> (string \<times> json) list" where
  "applicationFields attrs =
     [(''applicationType'', or_else (map_of attrs ''applicationType'') (JStr ''Custom'')),
      (''vendor'', JStr (getString (map_of attrs ''vendor''))),
      (''version'', JStr (getString (map_of attrs ''version''))),
      (''hostingModel'', or_else (map_of attrs ''hostingModel'') (JStr ''OnPrem'')),
      (''technologyStack'', array_or_empty (map_of attrs ''technologyStack'')),
      (''userCountEstimate'', JNum (getNumber (map_of attrs ''userCountEstimate''))),
      (''criticality'', or_else (map_of attrs ''criticality'') (JStr ''Medium'')),
      (''dataClassification'', or_else (map_of attrs ''dataClassification'') (JStr ''Internal'')),
      (''integrations'', array_or_empty (map_of attrs ''integrations''))]"

definition technologyFields :: "(string \<times> json) list \<Rightarrow> (string \<times> json) list" where
  "technologyFields attrs =
     [(''technologyType'', or_else (map_of attrs ''technologyType'') (JStr ''Platform'')),
      (''vendor'', JStr (getString (map_of attrs ''vendor''))),
      (''version'', JStr (getString (map_of attrs ''version''))),
      (''category'', JStr (getString (map_of attrs ''category''))),
      (''deploymentModel'', or_else (map_of attrs ''deploymentModel'') (JStr ''OnPrem'')),
      (''supportEndDate'', JStr (getString (map_of attrs ''supportEndDate''))),
      (''standardApproved'', JBool (getBool (map_of attrs ''standardApproved'')))]"

definition businessProcessFields :: "(string \<times> json) list \<Rightarrow> (string \<times> json) list" where
  "businessProcessFields attrs =
     [(''processOwner'', JStr (getString (map_of attrs ''processOwner''))),
      (''triggeringEvent'', JStr (getString (map_of attrs ''triggeringEvent''))),
      (''expectedOutcome'', JStr (getString (map_of attrs ''expectedOutcome''))),
      (''frequency'', or_else (map_of attrs ''frequency'') (JStr ''Ad-hoc'')),
      (''criticality'', or_else (map_of attrs ''criticality'') (JStr ''Medium'')),
      (''regulatoryRelevant'', JBool (getBool (map_of attrs ''regulatoryRelevant''))),
      (''complianceNotes'', JStr (getString (map_of attrs ''complianceNotes''))),
      (''parentCapabilityId'', JStr (getString (map_of attrs ''parentCapabilityId'')))]"

definition programmeFields :: "(string \<times> json) list \<Rightarrow> (string \<times> json) list" where
  "programmeFields attrs =
     [(''programmeType'', or_else (map_of attrs ''programmeType'') (JStr ''Transformation'')),
      (''strategicObjective'', JStr (getString (map_of attrs ''strategicObjective''))),
      (''startDate'', JStr (getString (map_of attrs ''startDate''))),
      (''endDate'', JStr (getString (map_of attrs ''endDate''))),
      (''budgetEstimate'', JNum (getNumber (map_of attrs ''budgetEstimate''))),
      (''fundingStatus'', or_else (map_of attrs ''fundingStatus'') (JStr ''Proposed'')),
      (''expectedBusinessImpact'', JStr (getString (map_of attrs ''expectedBusinessImpact''))),
      (''riskLevel'', or_else (map_of attrs ''riskLevel'') (JStr ''Medium''))]"

text \<open>The body of the loop over \<open>eaRepository.objects.values()\<close>: the typed store and
  \<open>lifecycleTagMissingIds\<close> before and after one object. The result of
  \<open>repo.addElement\<close> is dropped, as in the source.\<close>

definition projectObject ::
  "Collaborators \<Rightarrow> string option \<Rightarrow> string \<Rightarrow> ArchitectureRepository \<times> string list \<Rightarrow> EaObject
   \<Rightarrow> ArchitectureRepository \<times> string list" where
  "projectObject C coverage now acc obj =
     (let repo = fst acc;
          attrs = objAttributes obj;
          missing =
            (if coverage = Some ''Both'' \<and> map_of attrs ''_deleted'' \<noteq> Some (JBool True) then
               (let state = getLifecycleStateFromAttributes C attrs in
                if state = None \<or> state = Some [] then snd acc @ [objId obj] else snd acc)
             else snd acc);
          name =
            (case map_of attrs ''name'' of
               Some (JStr s) \<Rightarrow> if trim s \<noteq> [] then trim s else objId obj
             | _ \<Rightarrow> objId obj)
      in
      if objType obj = ''Capability'' \<or> objType obj = ''CapabilityCategory''
         \<or> objType obj = ''SubCapability'' then
        (snd (addElement repo Capabilities
           \<lparr>elemId = objId obj, elemName = name, elementType = ''Capability'', layer = ''Business'',
            elemFields = governedFields attrs now @ capabilityFields attrs\<rparr>), missing)
      else if objType obj = ''Application'' then
        (snd (addElement repo Applications
           \<lparr>elemId = objId obj, elemName = name, elementType = ''Application'',
            layer = ''Application'',
            elemFields = governedFields attrs now @ applicationFields attrs\<rparr>), missing)
      else if objType obj = ''Technology'' then
        (snd (addElement repo Technologies
           \<lparr>elemId = objId obj, elemName = name, elementType = ''Technology'',
            layer = ''Technology'',
            elemFields = governedFields attrs now @ technologyFields attrs\<rparr>), missing)
      else if objType obj = ''BusinessProcess'' then
        (snd (addElement repo BusinessProcesses
           \<lparr>elemId = objId obj, elemName = name, elementType = ''BusinessProcess'',
            layer = ''Business'',
            elemFields = governedFields attrs now @ businessProcessFields attrs\<rparr>), missing)
      else if objType obj = ''Programme'' then
        (snd (addElement repo Programmes
           \<lparr>elemId = objId obj, elemName = name, elementType = ''Programme'', layer = ''Strategy'',
            elemFields = governedFields attrs now @ programmeFields attrs\<rparr>), missing)
      else (repo, missing))"

fun projectObjects ::
  "Collaborators \<Rightarrow> string option \<Rightarrow> string \<Rightarrow> ArchitectureRepository \<times> string list
   \<Rightarrow> EaObject list \<Rightarrow> ArchitectureRepository \<times> string list" where
  "projectObjects C coverage now acc [] = acc"
| "projectObjects C coverage now acc (obj # objs) =
     projectObjects C coverage now (projectObject C coverage now acc obj) objs"

text \<open>\<open>supportedElementIds\<close>: the ids of the elements of the five collections, an element
  with an empty id left out.\<close>

definition supportedElementIds :: "ArchitectureRepository \<Rightarrow> string list" where
  "supportedElementIds repo =
     foldl (\<lambda>ids element. if elemId element \<noteq> [] then Set_add (elemId element) ids else ids) []
       (getElementsByType repo Capabilities @ getElementsByType repo BusinessProcesses
        @ getElementsByType repo Applications @ getElementsByType repo Technologies
        @ getElementsByType repo Programmes)"

text \<open>The body of the loop over \<open>eaRepository.relationships.entries()\<close>: the relationship
  store and \<open>invalidRelationshipInserts\<close> before and after the relationship at index
  \<open>i\<close>.\<close>

definition projectRelationship ::
  "ArchitectureRepository \<Rightarrow> EaRepository \<Rightarrow> string \<Rightarrow> string list
   \<Rightarrow> RelationshipRecord list \<times> string list \<Rightarrow> nat \<Rightarrow> EaRelationship
   \<Rightarrow> RelationshipRecord list \<times> string list" where
  "projectRelationship repo eaRepository now supported acc i rel =
     (let sourceId = trim (fromId rel);
          targetId = trim (toId rel)
      in
      if sourceId = [] \<or> targetId = [] then acc
      else if sourceId \<notin> set supported \<or> targetId \<notin> set supported then acc
      else
        let sourceType = toBackendElementType
              (case objects_get eaRepository sourceId of Some ob \<Rightarrow> objType ob | None \<Rightarrow> []);
            targetType = toBackendElementType
              (case objects_get eaRepository targetId of Some ob \<Rightarrow> objType ob | None \<Rightarrow> []);
            relationshipAny =
              \<lparr>relId = ''rel_'' @ show_nat i,
               relationshipType = trim (relType rel),
               sourceElementId = sourceId,
               sourceElementType = trim sourceType,
               targetElementId = targetId,
               targetElementType = trim targetType,
               direction = ''OUTGOING'',
               status = ''Draft'',
               effectiveFrom = now,
               effectiveTo = None,
               rationale = [],
               confidenceLevel = ''Medium'',
               lastReviewedAt = now,
               reviewedBy = ''ui'',
               createdAt = now,
               createdBy = ''ui'',
               dependencyStrength =
                 (if trim (relType rel) = ''DEPENDS_ON''
                    then map_of (relAttributes rel) ''dependencyStrength'' else None)\<rparr>;
            addRes = addRelationship repo (fst acc) relationshipAny
        in
        (case fst addRes of
           Inr v \<Rightarrow> (snd addRes, snd acc)
         | Inl err \<Rightarrow>
             (snd addRes,
              snd acc @ [string_or (relationshipType relationshipAny) ''(unknown)'' @ '' ''
                         @ sourceId @ '' -> '' @ targetId @ '': '' @ relationshipErrorText err])))"

fun projectRelationships ::
  "ArchitectureRepository \<Rightarrow> EaRepository \<Rightarrow> string \<Rightarrow> string list
   \<Rightarrow> RelationshipRecord list \<times> string list \<Rightarrow> nat \<Rightarrow> EaRelationship list
   \<Rightarrow> RelationshipRecord list \<times> string list" where
  "projectRelationships repo eaRepository now supported acc i [] = acc"
| "projectRelationships repo eaRepository now supported acc i (rel # rels) =
     projectRelationships repo eaRepository now supported
       (projectRelationship repo eaRepository now supported acc i rel) (Suc i) rels"

definition nullish_zero :: "nat option \<Rightarrow> nat" where
  "nullish_zero v = (case v of None \<Rightarrow> 0 | Some n \<Rightarrow> n)"

definition buildGovernanceDebt ::
  "Collaborators \<Rightarrow> EaRepository \<Rightarrow> string \<Rightarrow> string option \<Rightarrow> GovernanceDebt" where
  "buildGovernanceDebt C eaRepository now coverage =
     (let projected = projectObjects C coverage now (createArchitectureRepository, [])
                        (objects eaRepository);
          repo = fst projected;
          lifecycleTagMissing = snd projected;
          supported = supportedElementIds repo;
          inserted = projectRelationships repo eaRepository now supported ([], []) 0
                       (relationships eaRepository);
          relationshipStore = fst inserted;
          invalidInserts = snd inserted;
          repoRep = validateArchitectureRepository C repo now;
          relationshipRep = validateRelationshipRepository C repo relationshipStore now;
          mandatoryFindings = nullish_zero (summaryTotal repoRep);
          relationshipErrors = nullish_zero (bySeverityError relationshipRep);
          relationshipWarnings = nullish_zero (bySeverityWarning relationshipRep);
          invalidInsertCount = length invalidInserts;
          lifecycleMissingCount = length lifecycleTagMissing
      in
      \<lparr>summary =
         \<lparr>mandatoryFindingCount = mandatoryFindings,
          relationshipErrorCount = relationshipErrors,
          relationshipWarningCount = relationshipWarnings,
          invalidRelationshipInsertCount = invalidInsertCount,
          lifecycleTagMissingCount = lifecycleMissingCount,
          total = mandatoryFindings + relationshipErrors + relationshipWarnings
                  + invalidInsertCount + lifecycleMissingCount\<rparr>,
       repoReport = repoRep,
       relationshipReport = relationshipRep,
       invalidRelationshipInserts = invalidInserts,
       lifecycleTagMissingIds = lifecycleTagMissing\<rparr>)"


section \<open>Snapshots (EaRepositoryContext)\<close>

text \<open>
  A snapshot is the text \<open>JSON.stringify(serializeRepository(repo, metadata))\<close>. Where the
  provider stores, compares and reads back snapshots, the text is represented by the JSON
  value it denotes, keys in their order: \<open>JSON.stringify\<close> writes the keys of an object in
  the order the value holds them and \<open>JSON.parse\<close> reads them back in that order, so two
  snapshot texts are equal exactly when the values are; \<open>JSON_stringify\<close> gives the text
  itself. \<open>new Date().toISOString()\<close> is the argument \<open>now\<close>.
\<close>

definition metadata_json :: "EaRepositoryMetadata \<Rightarrow> json" where
  "metadata_json m =
     JObj [(''repositoryName'', JStr (repositoryName m)),
           (''organizationName'', JStr (organizationName m)),
           (''architectureScope'',
              (case architectureScope m of None \<Rightarrow> JNull | Some sc \<Rightarrow> JStr sc)),
           (''referenceFramework'', JStr (referenceFramework m)),
           (''governanceMode'', JStr (governanceMode m)),
           (''lifecycleCoverage'', JStr (lifecycleCoverage m)),
           (''timeHorizon'', JStr (timeHorizon m)),
           (''createdAt'', JStr (metaCreatedAt m))]"

definition object_json :: "EaObject \<Rightarrow> json" where
  "object_json ob =
     JObj [(''id'', JStr (objId ob)), (''type'', JStr (objType ob)),
           (''attributes'', JObj (objAttributes ob))]"

definition relationship_json :: "EaRelationship \<Rightarrow> json" where
  "relationship_json r =
     JObj [(''fromId'', JStr (fromId r)), (''toId'', JStr (toId r)), (''type'', JStr (relType r)),
           (''attributes'', JObj (relAttributes r))]"

definition serializeRepository :: "EaRepository \<Rightarrow> EaRepositoryMetadata \<Rightarrow> string \<Rightarrow> json" where
  "serializeRepository repo meta now =
     JObj [(''version'', JNum 1),
           (''metadata'', metadata_json meta),
           (''objects'', JArr (map object_json (objects repo))),
           (''relationships'', JArr (map relationship_json (relationships repo))),
           (''updatedAt'', JStr now)]"

definition as_array :: "json option \<Rightarrow> json list option" where
  "as_array v = (case v of Some (JArr xs) \<Rightarrow> Some xs | _ \<Rightarrow> None)"

definition tryDeserializeRepository ::
  "Collaborators \<Rightarrow> json \<Rightarrow> string + (EaRepository \<times> EaRepositoryMetadata)" where
  "tryDeserializeRepository C v =
     (case validateRepositoryMetadata C (json_field v ''metadata'') of
        Inl err \<Rightarrow> Inl err
      | Inr meta \<Rightarrow>
          (case as_array (json_field v ''objects'') of
             None \<Rightarrow> Inl ''Invalid repository snapshot: expected { objects, relationships }.''
           | Some objs \<Rightarrow>
               (case as_array (json_field v ''relationships'') of
                  None \<Rightarrow> Inl ''Invalid repository snapshot: expected { objects, relationships }.''
                | Some rels \<Rightarrow>
                    (case newEaRepository C objs rels of
                       Inl msg \<Rightarrow> Inl (string_or msg ''Failed to load repository snapshot.'')
                     | Inr repo \<Rightarrow> Inr (repo, meta)))))"


section \<open>The repository provider: state, history and the governance gate\<close>

definition HISTORY_LIMIT :: nat where
  "HISTORY_LIMIT = 50"

datatype StorageOp = SetItem json | RemoveItem

datatype Toast = ToastWarning string | ToastSuccess string

record GovernanceLogEntry =
  logType :: string
  logGovernanceMode :: string
  logRepositoryName :: string
  logArchitectureScope :: "string option"
  logSummary :: GovernanceDebtSummary
  logHighlights :: "string list"

text \<open>
  The state of \<open>EaRepositoryProvider\<close>: its React state, its refs, and the effects it has
  on its collaborators, recorded in order: the calls on \<open>localStorage\<close> for the key
  \<open>STORAGE_KEY\<close>, the entries handed to \<open>appendGovernanceLog\<close>, and the toasts of
  \<open>message\<close>. \<open>saveBlockedModal\<close> is the open blocking dialog, with the summary whose
  counts it shows. The most recent entry of \<open>undoStack\<close> is its last one, that of
  \<open>redoStack\<close> its first. \<open>loading\<close> is \<open>false\<close> for good (the state has no
  setter), so the guard on it is left out.
\<close>

record ProviderState =
  eaRepository :: "EaRepository option"
  metadata :: "EaRepositoryMetadata option"
  canUndo :: bool
  canRedo :: bool
  undoStack :: "json list"
  redoStack :: "json list"
  lastSerialized :: "json option"
  suppressHistory :: bool
  lastSaveBlockedKey :: "string option"
  saveBlockedModal :: "GovernanceDebtSummary option"
  lastAdvisoryWarnKey :: "string option"
  storageOps :: "StorageOp list"
  governanceLog :: "GovernanceLogEntry list"
  toasts :: "Toast list"

text \<open>\<open>setEaRepository(next)\<close>, with \<open>next\<close> an updater function; a plain value
  \<open>v\<close> is the updater \<open>plainValue v\<close> (defined after it).\<close>

definition setEaRepository ::
  "(EaRepository option \<Rightarrow> EaRepository option) \<Rightarrow> ProviderState \<Rightarrow> ProviderState" where
  "setEaRepository next st =
     (let prev = eaRepository st;
          resolved = next prev
      in
      if resolved = None then st\<lparr>eaRepository := resolved\<rparr>
      else
        let scope = (case metadata st of None \<Rightarrow> None | Some m \<Rightarrow> architectureScope m) in
        if \<not> hasReadOnlyObjectChanges prev resolved scope then st\<lparr>eaRepository := resolved\<rparr>
        else if scope = Some ''Domain'' then
          st\<lparr>toasts := toasts st @
               [ToastWarning ''Read-only in Domain scope: only Application + Technology layers are editable.'']\<rparr>
        else
          st\<lparr>toasts := toasts st @
               [ToastWarning ''Read-only in Business Unit scope: only Business + Application layers are editable.'']\<rparr>)"

definition plainValue :: "EaRepository option \<Rightarrow> EaRepository option \<Rightarrow> EaRepository option" where
  "plainValue v prev = v"

text \<open>\<open>stack.push(x)\<close> followed by \<open>shift()\<close> over the limit, and \<open>stack.unshift(x)\<close>
  followed by \<open>pop()\<close> over the limit.\<close>

definition push_undo :: "json \<Rightarrow> json list \<Rightarrow> json list" where
  "push_undo x stack =
     (let s = stack @ [x] in if length s > HISTORY_LIMIT then tl s else s)"

definition unshift_redo :: "json \<Rightarrow> json list \<Rightarrow> json list" where
  "unshift_redo x stack =
     (let s = x # stack in if length s > HISTORY_LIMIT then butlast s else s)"

definition applySerialized :: "Collaborators \<Rightarrow> json \<Rightarrow> ProviderState \<Rightarrow> bool \<times> ProviderState" where
  "applySerialized C raw st =
     (case tryDeserializeRepository C raw of
        Inl err \<Rightarrow> (False, st)
      | Inr res \<Rightarrow>
          (True, st\<lparr>suppressHistory := True, eaRepository := Some (fst res),
                    metadata := Some (snd res)\<rparr>))"

definition undo :: "Collaborators \<Rightarrow> ProviderState \<Rightarrow> bool \<times> ProviderState" where
  "undo C st =
     (if undoStack st = [] then (False, st\<lparr>canUndo := False\<rparr>)
      else
        let prevRaw = last (undoStack st);
            st1 = st\<lparr>undoStack := butlast (undoStack st)\<rparr>;
            st2 = (case lastSerialized st1 of
                     None \<Rightarrow> st1
                   | Some currentRaw \<Rightarrow> st1\<lparr>redoStack := unshift_redo currentRaw (redoStack st1)\<rparr>);
            applied = applySerialized C prevRaw st2
        in
        if \<not> fst applied then (False, snd applied)
        else
          (True, (snd applied)\<lparr>lastSerialized := Some prevRaw,
                                canUndo := (undoStack (snd applied) \<noteq> []),
                                canRedo := (redoStack (snd applied) \<noteq> [])\<rparr>))"

definition redo :: "Collaborators \<Rightarrow> ProviderState \<Rightarrow> bool \<times> ProviderState" where
  "redo C st =
     (if redoStack st = [] then (False, st\<lparr>canRedo := False\<rparr>)
      else
        let nextRaw = hd (redoStack st);
            st1 = st\<lparr>redoStack := tl (redoStack st)\<rparr>;
            st2 = (case lastSerialized st1 of
                     None \<Rightarrow> st1
                   | Some currentRaw \<Rightarrow> st1\<lparr>undoStack := push_undo currentRaw (undoStack st1)\<rparr>);
            applied = applySerialized C nextRaw st2
        in
        if \<not> fst applied then (False, snd applied)
        else
          (True, (snd applied)\<lparr>lastSerialized := Some nextRaw,
                                canUndo := (undoStack (snd applied) \<noteq> []),
                                canRedo := (redoStack (snd applied) \<noteq> [])\<rparr>))"

text \<open>The parts of the persistence effect, in the order the effect runs them.\<close>

definition trackHistory :: "json \<Rightarrow> ProviderState \<Rightarrow> ProviderState" where
  "trackHistory nextSerialized st =
     (let st1 =
        (if \<not> suppressHistory st then
           (case lastSerialized st of
              None \<Rightarrow> st
            | Some prevSerialized \<Rightarrow>
                if prevSerialized \<noteq> nextSerialized then
                  st\<lparr>undoStack := push_undo prevSerialized (undoStack st), redoStack := [],
                     canUndo := True, canRedo := False\<rparr>
                else st)
         else st)
      in st1\<lparr>suppressHistory := False, lastSerialized := Some nextSerialized\<rparr>)"

definition debtKey :: "GovernanceDebtSummary \<Rightarrow> string" where
  "debtKey s =
     show_nat (mandatoryFindingCount s) @ ''|'' @ show_nat (invalidRelationshipInsertCount s)
     @ ''|'' @ show_nat (relationshipErrorCount s) @ ''|'' @ show_nat (relationshipWarningCount s)
     @ ''|'' @ show_nat (lifecycleTagMissingCount s)"

definition highlights :: "GovernanceDebt \<Rightarrow> string list" where
  "highlights debt =
     map (\<lambda>f. ''Mandatory: '' @ message f @ '' ('' @ subject f @ '')'')
       (take 3 (repoFindings (repoReport debt)))
     @ map (\<lambda>f. ''Relationship: '' @ message f @ '' ('' @ subject f @ '')'')
         (take 3 (relFindings (relationshipReport debt)))
     @ map (\<lambda>s. ''Relationship insert: '' @ s) (take 3 (invalidRelationshipInserts debt))
     @ map (\<lambda>i. ''Lifecycle tag missing: '' @ i) (take 3 (lifecycleTagMissingIds debt))"

definition strictBlocked :: "GovernanceDebtSummary \<Rightarrow> bool" where
  "strictBlocked s =
     (mandatoryFindingCount s > 0 \<or> relationshipErrorCount s > 0
      \<or> invalidRelationshipInsertCount s > 0 \<or> lifecycleTagMissingCount s > 0)"

text \<open>The Strict branch: the state after it, and whether the effect returns there (before
  \<open>localStorage.setItem\<close>).\<close>

definition strictBranch ::
  "EaRepositoryMetadata \<Rightarrow> GovernanceDebt \<Rightarrow> ProviderState \<Rightarrow> bool \<times> ProviderState" where
  "strictBranch meta debt st =
     (let key = debtKey (summary debt) in
      if strictBlocked (summary debt) then
        (True,
         if lastSaveBlockedKey st \<noteq> Some key then
           st\<lparr>lastSaveBlockedKey := Some key,
              governanceLog := governanceLog st @
                [\<lparr>logType = ''save.blocked'', logGovernanceMode = ''Strict'',
                  logRepositoryName = repositoryName meta,
                  logArchitectureScope = architectureScope meta,
                  logSummary = summary debt, logHighlights = highlights debt\<rparr>],
              saveBlockedModal := Some (summary debt)\<rparr>
         else st)
      else
        (False,
         if lastSaveBlockedKey st \<noteq> None \<and> lastSaveBlockedKey st \<noteq> Some [] then
           st\<lparr>lastSaveBlockedKey := None, saveBlockedModal := None,
              toasts := toasts st @ [ToastSuccess ''Governance compliant: saving re-enabled.'']\<rparr>
         else st))"

definition advisoryBranch ::
  "EaRepositoryMetadata \<Rightarrow> GovernanceDebt \<Rightarrow> ProviderState \<Rightarrow> ProviderState" where
  "advisoryBranch meta debt st =
     (let key = debtKey (summary debt);
          st1 =
            (if total (summary debt) > 0 \<and> lastAdvisoryWarnKey st \<noteq> Some key then
               st\<lparr>lastAdvisoryWarnKey := Some key,
                  toasts := toasts st @
                    [ToastWarning (''Saved with governance warnings (Advisory): ''
                                   @ show_nat (total (summary debt)) @ '' issue(s).'')],
                  governanceLog := governanceLog st @
                    [\<lparr>logType = ''save.warned'', logGovernanceMode = ''Advisory'',
                      logRepositoryName = repositoryName meta,
                      logArchitectureScope = architectureScope meta,
                      logSummary = summary debt, logHighlights = highlights debt\<rparr>]\<rparr>
             else st)
      in if total (summary debt) = 0 then st1\<lparr>lastAdvisoryWarnKey := None\<rparr> else st1)"

text \<open>
  The persistence effect, which React runs after every change of \<open>eaRepository\<close> or
  \<open>metadata\<close> (a model settle). \<open>now\<close> and \<open>nowDebt\<close> are the two readings of the clock,
  in \<open>serializeRepository\<close> and for \<open>buildGovernanceDebt\<close>.
\<close>

definition settleEffect :: "Collaborators \<Rightarrow> string \<Rightarrow> string \<Rightarrow> ProviderState \<Rightarrow> ProviderState" where
  "settleEffect C now nowDebt st =
     (case eaRepository st of
        None \<Rightarrow> st\<lparr>storageOps := storageOps st @ [RemoveItem], lastSerialized := None\<rparr>
      | Some repo \<Rightarrow>
          (case metadata st of
             None \<Rightarrow> st\<lparr>storageOps := storageOps st @ [RemoveItem], lastSerialized := None\<rparr>
           | Some meta \<Rightarrow>
               let nextSerialized = serializeRepository repo meta now;
                   st1 = trackHistory nextSerialized st
               in
               if governanceMode meta = ''Strict'' \<or> governanceMode meta = ''Advisory'' then
                 let debt = buildGovernanceDebt C repo nowDebt (Some (lifecycleCoverage meta));
                     strict = (if governanceMode meta = ''Strict'' then strictBranch meta debt st1
                               else (False, st1))
                 in
                 if fst strict then snd strict
                 else
                   let st2 = (if governanceMode meta = ''Advisory''
                                then advisoryBranch meta debt (snd strict) else snd strict)
                   in st2\<lparr>storageOps := storageOps st2 @ [SetItem nextSerialized]\<rparr>
               else st1\<lparr>storageOps := storageOps st1 @ [SetItem nextSerialized]\<rparr>))"


text \<open>The provider as it starts with nothing in \<open>localStorage\<close>, and the three
  operations that start a new history root. \<open>loadRepositoryFromJsonText\<close> takes the result
  of \<open>JSON.parse\<close>, \<open>None\<close> when it throws.\<close>

definition initialState :: ProviderState where
  "initialState =
     \<lparr>eaRepository = None, metadata = None, canUndo = False, canRedo = False,
      undoStack = [], redoStack = [], lastSerialized = None, suppressHistory = False,
      lastSaveBlockedKey = None, saveBlockedModal = None, lastAdvisoryWarnKey = None,
      storageOps = [], governanceLog = [], toasts = []\<rparr>"

definition createNewRepository ::
  "Collaborators \<Rightarrow> EaRepositoryMetadata \<Rightarrow> string \<Rightarrow> ProviderState
   \<Rightarrow> (string + unit) \<times> ProviderState" where
  "createNewRepository C input createdAtNow st =
     (case validateRepositoryMetadata C
             (Some (metadata_json (input\<lparr>metaCreatedAt := createdAtNow\<rparr>))) of
        Inl err \<Rightarrow> (Inl err, st)
      | Inr meta \<Rightarrow>
          (Inr (),
           st\<lparr>undoStack := [], redoStack := [], canUndo := False, canRedo := False,
              eaRepository := Some \<lparr>objects = [], relationships = []\<rparr>,
              metadata := Some meta\<rparr>))"

definition clearRepository :: "ProviderState \<Rightarrow> ProviderState" where
  "clearRepository st =
     st\<lparr>undoStack := [], redoStack := [], canUndo := False, canRedo := False,
        eaRepository := None, metadata := None\<rparr>"

definition loadRepositoryFromJsonText ::
  "Collaborators \<Rightarrow> json option \<Rightarrow> ProviderState \<Rightarrow> (string + unit) \<times> ProviderState" where
  "loadRepositoryFromJsonText C parsed st =
     (case parsed of
        None \<Rightarrow> (Inl ''Invalid JSON.'', st)
      | Some v \<Rightarrow>
          (case tryDeserializeRepository C v of
             Inl err \<Rightarrow> (Inl err, st)
           | Inr res \<Rightarrow>
               (Inr (),
                st\<lparr>undoStack := [], redoStack := [], canUndo := False, canRedo := False,
                   eaRepository := Some (fst res), metadata := Some (snd res)\<rparr>)))"

text \<open>
  Runs of the provider. A committed edit is a change of \<open>eaRepository\<close> that passed the
  scope check, followed by the persistence effect; it is given by the new repository and
  the two clock readings of the effect. A successful \<open>undo()\<close> or \<open>redo()\<close> changes
  the state, so the effect runs after it as well; a failed one changes nothing the effect
  depends on.
\<close>

type_synonym edit = "EaRepository \<times> string \<times> string"

definition commitEdit :: "Collaborators \<Rightarrow> edit \<Rightarrow> ProviderState \<Rightarrow> ProviderState" where
  "commitEdit C e st =
     settleEffect C (fst (snd e)) (snd (snd e)) (st\<lparr>eaRepository := Some (fst e)\<rparr>)"

fun commitEdits :: "Collaborators \<Rightarrow> edit list \<Rightarrow> ProviderState \<Rightarrow> ProviderState" where
  "commitEdits C [] st = st"
| "commitEdits C (e # es) st = commitEdits C es (commitEdit C e st)"

definition undoAndSettle :: "Collaborators \<Rightarrow> string \<times> string \<Rightarrow> ProviderState \<Rightarrow> ProviderState" where
  "undoAndSettle C clock st =
     (let r = undo C st in
      if fst r then settleEffect C (fst clock) (snd clock) (snd r) else snd r)"

definition redoAndSettle :: "Collaborators \<Rightarrow> string \<times> string \<Rightarrow> ProviderState \<Rightarrow> ProviderState" where
  "redoAndSettle C clock st =
     (let r = redo C st in
      if fst r then settleEffect C (fst clock) (snd clock) (snd r) else snd r)"

fun undoAll :: "Collaborators \<Rightarrow> (string \<times> string) list \<Rightarrow> ProviderState \<Rightarrow> ProviderState" where
  "undoAll C [] st = st"
| "undoAll C (clock # clocks) st = undoAll C clocks (undoAndSettle C clock st)"

fun redoAll :: "Collaborators \<Rightarrow> (string \<times> string) list \<Rightarrow> ProviderState \<Rightarrow> ProviderState" where
  "redoAll C [] st = st"
| "redoAll C (clock # clocks) st = redoAll C clocks (redoAndSettle C clock st)"

text \<open>The snapshot an edit settles to, and lists without equal neighbours (each edit of
  a run changes the snapshot).\<close>

definition snapshotOf :: "EaRepositoryMetadata \<Rightarrow> edit \<Rightarrow> json" where
  "snapshotOf meta e = serializeRepository (fst e) meta (fst (snd e))"

text \<open>A snapshot of a repository, taken at some time.\<close>

definition snapshotFor :: "EaRepositoryMetadata \<Rightarrow> json \<Rightarrow> EaRepository \<Rightarrow> bool" where
  "snapshotFor meta s r = (\<exists>t. s = serializeRepository r meta t)"

fun adjacent_distinct :: "'a list \<Rightarrow> bool" where
  "adjacent_distinct [] = True"
| "adjacent_distinct [x] = True"
| "adjacent_distinct (x # y # ys) = (x \<noteq> y \<and> adjacent_distinct (y # ys))"

text \<open>The debt summary an edit settles to, and the \<open>save.warned\<close> entries of a log.\<close>

definition debtOf :: "Collaborators \<Rightarrow> EaRepositoryMetadata \<Rightarrow> edit \<Rightarrow> GovernanceDebtSummary" where
  "debtOf C meta e =
     summary (buildGovernanceDebt C (fst e) (snd (snd e)) (Some (lifecycleCoverage meta)))"

definition warnedEntries :: "GovernanceLogEntry list \<Rightarrow> GovernanceLogEntry list" where
  "warnedEntries entries = filter (\<lambda>entry. logType entry = ''save.warned'') entries"


section \<open>Example data\<close>

text \<open>
  Stand-ins for the collaborators, used at concrete inputs: a metadata validator and a
  repository constructor that read back what \<open>serializeRepository\<close> writes, validation
  passes that find nothing, and a lifecycle reader that always finds a state.
\<close>

definition string_field :: "(string \<times> json) list \<Rightarrow> string \<Rightarrow> string option" where
  "string_field kvs k = (case map_of kvs k of Some (JStr s) \<Rightarrow> Some s | _ \<Rightarrow> None)"

definition exampleValidateRepositoryMetadata :: "json option \<Rightarrow> string + EaRepositoryMetadata" where
  "exampleValidateRepositoryMetadata v =
     (case v of
        Some (JObj kvs) \<Rightarrow>
          (case string_field kvs ''repositoryName'' of None \<Rightarrow> Inl ''Invalid metadata.'' | Some a \<Rightarrow>
           case string_field kvs ''organizationName'' of None \<Rightarrow> Inl ''Invalid metadata.'' | Some b \<Rightarrow>
           case string_field kvs ''referenceFramework'' of None \<Rightarrow> Inl ''Invalid metadata.'' | Some c \<Rightarrow>
           case string_field kvs ''governanceMode'' of None \<Rightarrow> Inl ''Invalid metadata.'' | Some d \<Rightarrow>
           case string_field kvs ''lifecycleCoverage'' of None \<Rightarrow> Inl ''Invalid metadata.'' | Some e \<Rightarrow>
           case string_field kvs ''timeHorizon'' of None \<Rightarrow> Inl ''Invalid metadata.'' | Some f \<Rightarrow>
           case string_field kvs ''createdAt'' of None \<Rightarrow> Inl ''Invalid metadata.'' | Some g \<Rightarrow>
             Inr \<lparr>repositoryName = a, organizationName = b,
                  architectureScope = string_field kvs ''architectureScope'',
                  referenceFramework = c, governanceMode = d, lifecycleCoverage = e,
                  timeHorizon = f, metaCreatedAt = g\<rparr>)
      | _ \<Rightarrow> Inl ''Invalid metadata.'')"

definition object_of_json :: "json \<Rightarrow> EaObject option" where
  "object_of_json v =
     (case (json_field v ''id'', json_field v ''type'', json_field v ''attributes'') of
        (Some (JStr i), Some (JStr t), Some (JObj attrs)) \<Rightarrow>
          Some \<lparr>objId = i, objType = t, objAttributes = attrs\<rparr>
      | _ \<Rightarrow> None)"

definition relationship_of_json :: "json \<Rightarrow> EaRelationship option" where
  "relationship_of_json v =
     (case (json_field v ''fromId'', json_field v ''toId'', json_field v ''type'',
            json_field v ''attributes'') of
        (Some (JStr a), Some (JStr b), Some (JStr t), Some (JObj attrs)) \<Rightarrow>
          Some \<lparr>fromId = a, toId = b, relType = t, relAttributes = attrs\<rparr>
      | _ \<Rightarrow> None)"

definition exampleNewEaRepository :: "json list \<Rightarrow> json list \<Rightarrow> string + EaRepository" where
  "exampleNewEaRepository objs rels =
     (if list_all (\<lambda>v. object_of_json v \<noteq> None) objs
         \<and> list_all (\<lambda>v. relationship_of_json v \<noteq> None) rels
        then Inr \<lparr>objects = map (\<lambda>v. the (object_of_json v)) objs,
                  relationships = map (\<lambda>v. the (relationship_of_json v)) rels\<rparr>
      else Inl ''Invalid object or relationship.'')"

definition exampleCollaborators :: Collaborators where
  "exampleCollaborators =
     \<lparr>validateRepositoryMetadata = exampleValidateRepositoryMetadata,
      newEaRepository = exampleNewEaRepository,
      validateArchitectureRepository = (\<lambda>repo now. \<lparr>repoFindings = [], summaryTotal = Some 0\<rparr>),
      validateRelationshipRepository =
        (\<lambda>repo store now. \<lparr>relFindings = [], bySeverityError = None, bySeverityWarning = None\<rparr>),
      getLifecycleStateFromAttributes = (\<lambda>attrs. Some ''Active'')\<rparr>"

text \<open>The same, with a relationship pass that reports one warning and no error.\<close>

definition warningCollaborators :: Collaborators where
  "warningCollaborators =
     exampleCollaborators
       \<lparr>validateRelationshipRepository :=
          (\<lambda>repo store now.
             \<lparr>relFindings = [\<lparr>message = ''Review date is stale.'', subject = ''rel_0''\<rparr>],
              bySeverityError = None, bySeverityWarning = Some 1\<rparr>)\<rparr>"

definition exampleMetadata :: "string \<Rightarrow> string option \<Rightarrow> EaRepositoryMetadata" where
  "exampleMetadata mode scope =
     \<lparr>repositoryName = ''Demo'', organizationName = ''Org'', architectureScope = scope,
      referenceFramework = ''ArchiMate'', governanceMode = mode, lifecycleCoverage = ''Both'',
      timeHorizon = ''Current'', metaCreatedAt = ''2024-01-01T00:00:00.000Z''\<rparr>"

definition billing :: EaObject where
  "billing = \<lparr>objId = ''a1'', objType = ''Application'',
              objAttributes = [(''name'', JStr ''Billing'')]\<rparr>"

definition ledger :: EaObject where
  "ledger = \<lparr>objId = ''a2'', objType = ''Application'',
             objAttributes = [(''name'', JStr ''Ledger'')]\<rparr>"

definition linux :: EaObject where
  "linux = \<lparr>objId = ''t1'', objType = ''Technology'',
            objAttributes = [(''name'', JStr ''Linux'')]\<rparr>"

definition linuxRenamed :: EaObject where
  "linuxRenamed = \<lparr>objId = ''t1'', objType = ''Technology'',
                   objAttributes = [(''name'', JStr ''Debian'')]\<rparr>"

definition dependsOn :: "string \<Rightarrow> string \<Rightarrow> EaRelationship" where
  "dependsOn a b = \<lparr>fromId = a, toId = b, relType = ''DEPENDS_ON'', relAttributes = []\<rparr>"

text \<open>Three repositories over the same objects: no relationship, one \<open>DEPENDS_ON\<close> from an
  application to a technology, and two of them.\<close>

definition repoClean :: EaRepository where
  "repoClean = \<lparr>objects = [billing, ledger, linux], relationships = [dependsOn ''a1'' ''a2'']\<rparr>"

definition repoOneBad :: EaRepository where
  "repoOneBad = \<lparr>objects = [billing, ledger, linux], relationships = [dependsOn ''a1'' ''t1'']\<rparr>"

definition repoTwoBad :: EaRepository where
  "repoTwoBad = \<lparr>objects = [billing, ledger, linux],
                 relationships = [dependsOn ''a1'' ''t1'', dependsOn ''a2'' ''t1'']\<rparr>"

definition repoRenamed :: EaRepository where
  "repoRenamed = \<lparr>objects = [billing, ledger, linuxRenamed],
                  relationships = [dependsOn ''a1'' ''a2'']\<rparr>"

definition settledState :: "EaRepository \<Rightarrow> EaRepositoryMetadata \<Rightarrow> ProviderState" where
  "settledState repo meta =
     initialState\<lparr>eaRepository := Some repo, metadata := Some meta,
                  lastSerialized := Some (serializeRepository repo meta ''2024-01-01T00:00:00.000Z'')\<rparr>"


text \<open>An object of a type the typed store has no collection for, a repository with a
  blank and an unresolved endpoint, the typed store the projection builds, a record for the
  relationship store, and a typed element whose id is taken.\<close>

definition department :: EaObject where
  "department = \<lparr>objId = ''d1'', objType = ''Department'',
                 objAttributes = [(''name'', JStr ''Finance'')]\<rparr>"

definition repoMixed :: EaRepository where
  "repoMixed = \<lparr>objects = [billing, ledger, linux, department],
                relationships = [dependsOn '' '' ''a1'', dependsOn ''a1'' ''d1'',
                                 dependsOn ''a1'' ''t1'', dependsOn ''a1'' ''a2'']\<rparr>"

definition typedStore :: "EaRepository \<Rightarrow> ArchitectureRepository" where
  "typedStore ea = fst (projectObjects exampleCollaborators (Some ''Both'') ''2024-01-01T00:00:00.000Z''
                         (createArchitectureRepository, []) (objects ea))"

definition exampleRecord :: "string \<Rightarrow> string \<Rightarrow> string \<Rightarrow> RelationshipRecord" where
  "exampleRecord t a b =
     \<lparr>relId = ''rel_0'', relationshipType = t, sourceElementId = a,
      sourceElementType = ''Application'', targetElementId = b, targetElementType = ''Application'',
      direction = ''OUTGOING'', status = ''Draft'', effectiveFrom = ''2024-01-01T00:00:00.000Z'',
      effectiveTo = None, rationale = [], confidenceLevel = ''Medium'',
      lastReviewedAt = ''2024-01-01T00:00:00.000Z'', reviewedBy = ''ui'',
      createdAt = ''2024-01-01T00:00:00.000Z'', createdBy = ''ui'', dependencyStrength = None\<rparr>"

definition clashingTechnology :: BaseArchitectureElement where
  "clashingTechnology = \<lparr>elemId = ''a1'', elemName = ''Linux'', elementType = ''Technology'',
                         layer = ''Technology'', elemFields = []\<rparr>"



text \<open>An edit with one clock reading for both uses, sixty edits that each change an
  attribute, and two repositories whose one object has the same attributes, stored in a
  different order.\<close>

definition editAt :: "EaRepository \<Rightarrow> string \<Rightarrow> edit" where
  "editAt repo now = (repo, now, now)"

definition revision :: "nat \<Rightarrow> EaRepository" where
  "revision k =
     \<lparr>objects = [\<lparr>objId = ''a1'', objType = ''Application'',
                  objAttributes = [(''name'', JStr ''Billing''), (''revision'', JNum (int k))]\<rparr>],
      relationships = []\<rparr>"

definition sixtyEdits :: "edit list" where
  "sixtyEdits = map (\<lambda>k. (revision k, ''2024-01-02T00:00:00.000Z'', ''2024-01-02T00:00:00.000Z''))
                  [1..<61]"

definition repoAB :: EaRepository where
  "repoAB = \<lparr>objects = [\<lparr>objId = ''a1'', objType = ''Application'',
                          objAttributes = [(''criticality'', JStr ''High''), (''name'', JStr ''Billing'')]\<rparr>],
             relationships = []\<rparr>"

definition repoBA :: EaRepository where
  "repoBA = \<lparr>objects = [\<lparr>objId = ''a1'', objType = ''Application'',
                          objAttributes = [(''name'', JStr ''Billing''), (''criticality'', JStr ''High'')]\<rparr>],
             relationships = []\<rparr>"


section \<open>Agreement of the two scope-policy functions\<close>

lemma isValidObjectType_cases:
  assumes "isValidObjectType t"
  shows "t = ''CapabilityCategory'' \<or> t = ''Capability'' \<or> t = ''SubCapability''
       \<or> t = ''BusinessProcess'' \<or> t = ''Department'' \<or> t = ''Application''
       \<or> t = ''Technology'' \<or> t = ''Programme'' \<or> t = ''Project''
       \<or> t = ''Principle'' \<or> t = ''Requirement''"
  using assms unfolding isValidObjectType_def OBJECT_TYPES_def by simp

lemma isValidObjectType_nonempty: "isValidObjectType t \<Longrightarrow> t \<noteq> []"
  by (drule isValidObjectType_cases) auto

text \<open>
  Claim C10. For every architecture scope, \<open>null\<close>/\<open>undefined\<close> included, and every
  valid object type, \<open>getReadOnlyReason\<close> returns \<open>null\<close> exactly when
  \<open>isObjectTypeWritableForScope\<close> returns \<open>true\<close>.
\<close>

theorem scope_policy_functions_agree:
  assumes "isValidObjectType t"
  shows "(getReadOnlyReason scope (Some t) = None) = isObjectTypeWritableForScope scope t"
proof -
  have ne: "t \<noteq> []" using assms by (rule isValidObjectType_nonempty)
  have "getReadOnlyReason scope (Some t) =
        (let layer = OBJECT_TYPE_DEFINITIONS_layer t in
         if scope = Some ''Business Unit'' then
           (if layer = Some ''Business'' \<or> layer = Some ''Application'' then None
            else Some ''Read-only in Business Unit scope: only Business + Application layers are editable.'')
         else if scope = Some ''Domain'' then
           (if layer = Some ''Application'' \<or> layer = Some ''Technology'' then None
            else Some ''Read-only in Domain scope: only Application + Technology layers are editable.'')
         else if scope = Some ''Programme'' then
           (if t = ''Programme'' \<or> t = ''Project'' then None
            else Some ''Read-only in Programme scope: only Programme + Project elements are editable.'')
         else None)"
    using assms ne by (simp add: getReadOnlyReason_def)
  then show ?thesis
    by (simp add: isObjectTypeWritableForScope_def Let_def)
qed

theorem scope_policy_functions_agree_witness:
  "isValidObjectType ''Technology''
   \<and> getReadOnlyReason (Some ''Business Unit'') (Some ''Technology'') \<noteq> None
   \<and> \<not> isObjectTypeWritableForScope (Some ''Business Unit'') ''Technology''
   \<and> getReadOnlyReason None (Some ''Technology'') = None
   \<and> isObjectTypeWritableForScope None ''Technology''"
proof -
  have v: "isValidObjectType ''Technology''"
    by (simp add: isValidObjectType_def OBJECT_TYPES_def)
  have a: "\<not> isObjectTypeWritableForScope (Some ''Business Unit'') ''Technology''"
    by (simp add: isObjectTypeWritableForScope_def OBJECT_TYPE_DEFINITIONS_layer_def)
  have b: "isObjectTypeWritableForScope None ''Technology''"
    by (simp add: isObjectTypeWritableForScope_def)
  show ?thesis
    using v a b scope_policy_functions_agree [OF v, of "Some ''Business Unit''"]
      scope_policy_functions_agree [OF v, of None]
    by simp
qed


section \<open>The typed store: what is reachable\<close>

lemma Map_set_keys: "set (map fst (Map_set m k v)) = insert k (set (map fst m))"
  by (induction m) auto

lemma Map_has_Map_set: "Map_has (Map_set m k v) k' = (k' = k \<or> Map_has m k')"
  unfolding Map_has_def Map_set_keys by auto

lemma Map_set_entries:
  "(k', e) \<in> set (Map_set m k v) \<Longrightarrow> (k', e) = (k, v) \<or> (k', e) \<in> set m"
  by (induction m) (auto split: if_splits)

lemma Map_get_Some_iff: "(Map_get m k \<noteq> None) = Map_has m k"
  by (simp add: Map_get_def Map_has_def map_of_eq_None_iff)

lemma store_inv_new: "store_inv createArchitectureRepository"
  unfolding store_inv_def
proof (intro conjI allI impI)
  fix c k e assume "(k, e) \<in> set (collection c createArchitectureRepository)"
  then show "elemId e = k" by (cases c) (simp_all add: createArchitectureRepository_def)
next
  fix k
  have "\<And>c. \<not> Map_has (collection c createArchitectureRepository) k"
    subgoal for c by (cases c) (simp_all add: createArchitectureRepository_def Map_has_def)
    done
  then show "Map_has (byId createArchitectureRepository) k
             = (\<exists>c. Map_has (collection c createArchitectureRepository) k)"
    by (simp add: createArchitectureRepository_def Map_has_def)
qed

lemma addElement_cases:
  "snd (addElement r ty e) = r \<or>
   (\<not> Map_has (byId r) (elemId e) \<and>
    byId (snd (addElement r ty e)) = Map_set (byId r) (elemId e) e \<and>
    collection ty (snd (addElement r ty e)) = Map_set (collection ty r) (elemId e) e \<and>
    (\<forall>c. c \<noteq> ty \<longrightarrow> collection c (snd (addElement r ty e)) = collection c r))"
proof (cases ty)
  case Capabilities
  have "\<And>c. c \<noteq> Capabilities \<Longrightarrow> collection c (r\<lparr>capabilities := x, byId := y\<rparr>) = collection c r" for x y
    subgoal for c by (cases c) simp_all
    done
  with Capabilities show ?thesis by (auto simp: addElement_def Let_def)
next
  case BusinessProcesses
  have "\<And>c. c \<noteq> BusinessProcesses \<Longrightarrow> collection c (r\<lparr>businessProcesses := x, byId := y\<rparr>) = collection c r" for x y
    subgoal for c by (cases c) simp_all
    done
  with BusinessProcesses show ?thesis by (auto simp: addElement_def Let_def)
next
  case Applications
  have "\<And>c. c \<noteq> Applications \<Longrightarrow> collection c (r\<lparr>applications := x, byId := y\<rparr>) = collection c r" for x y
    subgoal for c by (cases c) simp_all
    done
  with Applications show ?thesis by (auto simp: addElement_def Let_def)
next
  case Technologies
  have "\<And>c. c \<noteq> Technologies \<Longrightarrow> collection c (r\<lparr>technologies := x, byId := y\<rparr>) = collection c r" for x y
    subgoal for c by (cases c) simp_all
    done
  with Technologies show ?thesis by (auto simp: addElement_def Let_def)
next
  case Programmes
  have "\<And>c. c \<noteq> Programmes \<Longrightarrow> collection c (r\<lparr>programmes := x, byId := y\<rparr>) = collection c r" for x y
    subgoal for c by (cases c) simp_all
    done
  with Programmes show ?thesis by (auto simp: addElement_def Let_def)
qed

lemma store_inv_addElement:
  assumes "store_inv r"
  shows "store_inv (snd (addElement r ty e))"
proof -
  let ?r' = "snd (addElement r ty e)"
  from addElement_cases [of r ty e] show ?thesis
  proof
    assume "?r' = r" with assms show ?thesis by simp
  next
    assume h: "\<not> Map_has (byId r) (elemId e) \<and>
      byId ?r' = Map_set (byId r) (elemId e) e \<and>
      collection ty ?r' = Map_set (collection ty r) (elemId e) e \<and>
      (\<forall>c. c \<noteq> ty \<longrightarrow> collection c ?r' = collection c r)"
    show ?thesis unfolding store_inv_def
    proof (intro conjI allI impI)
      fix c k x assume m: "(k, x) \<in> set (collection c ?r')"
      show "elemId x = k"
      proof (cases "c = ty")
        case True
        with m h have "(k, x) \<in> set (Map_set (collection ty r) (elemId e) e)" by simp
        from Map_set_entries [OF this] assms show ?thesis
          unfolding store_inv_def by auto
      next
        case False
        with m h have "(k, x) \<in> set (collection c r)" by simp
        with assms show ?thesis unfolding store_inv_def by blast
      qed
    next
      fix k
      have a: "Map_has (byId ?r') k = (k = elemId e \<or> Map_has (byId r) k)"
        using h by (simp add: Map_has_Map_set)
      have b: "Map_has (collection c ?r') k = ((c = ty \<and> k = elemId e) \<or> Map_has (collection c r) k)" for c
        using h by (cases "c = ty") (auto simp: Map_has_Map_set)
      from assms have i: "Map_has (byId r) k = (\<exists>c. Map_has (collection c r) k)"
        unfolding store_inv_def by blast
      show "Map_has (byId ?r') k = (\<exists>c. Map_has (collection c ?r') k)"
        unfolding a b i by blast
    qed
  qed
qed

lemma reachable_store_inv: "reachable r \<Longrightarrow> store_inv r"
  by (induction rule: reachable.induct) (simp_all add: store_inv_new store_inv_addElement)

lemma set_Set_add: "set (Set_add x xs) = insert x (set xs)"
  by (auto simp: Set_add_def)

lemma set_supported_fold:
  "set (foldl (\<lambda>ids element. if elemId element \<noteq> [] then Set_add (elemId element) ids else ids) acc es)
   = set acc \<union> {elemId e | e. e \<in> set es \<and> elemId e \<noteq> []}"
  by (induction es arbitrary: acc) (auto simp: set_Set_add)

lemma collection_exhaust:
  "(\<exists>c. P (collection c r)) =
   (P (capabilities r) \<or> P (businessProcesses r) \<or> P (applications r) \<or> P (technologies r)
    \<or> P (programmes r))"
proof
  assume "\<exists>c. P (collection c r)"
  then obtain c where "P (collection c r)" ..
  then show "P (capabilities r) \<or> P (businessProcesses r) \<or> P (applications r)
             \<or> P (technologies r) \<or> P (programmes r)"
    by (cases c) simp_all
next
  assume "P (capabilities r) \<or> P (businessProcesses r) \<or> P (applications r)
          \<or> P (technologies r) \<or> P (programmes r)"
  then show "\<exists>c. P (collection c r)"
    by (metis collection.simps)
qed

lemma supportedElementIds_iff:
  assumes "store_inv r"
  shows "(x \<in> set (supportedElementIds r)) = (x \<noteq> [] \<and> getElementById r x \<noteq> None)"
proof -
  have s: "set (supportedElementIds r)
        = {elemId e | e. (\<exists>c. e \<in> snd ` set (collection c r)) \<and> elemId e \<noteq> []}"
    unfolding supportedElementIds_def set_supported_fold getElementsByType_def Map_values_def
      collection_exhaust [where P = "\<lambda>m. _ \<in> snd ` set m"]
    by auto
  have ids: "(k, e) \<in> set (collection c r) \<Longrightarrow> elemId e = k" for c k e
    using assms unfolding store_inv_def by blast
  have byid: "Map_has (byId r) k = (\<exists>c. Map_has (collection c r) k)" for k
    using assms unfolding store_inv_def by blast
  show ?thesis
  proof
    assume "x \<in> set (supportedElementIds r)"
    then obtain e c where e: "x = elemId e" "e \<in> snd ` set (collection c r)" "elemId e \<noteq> []"
      unfolding s by blast
    then obtain k where "(k, e) \<in> set (collection c r)" by force
    with ids [OF this] e have "Map_has (collection c r) x"
      unfolding Map_has_def by force
    then have "Map_has (byId r) x" using byid by blast
    then have "getElementById r x \<noteq> None"
      unfolding getElementById_def using Map_get_Some_iff [of "byId r" x] by blast
    with e show "x \<noteq> [] \<and> getElementById r x \<noteq> None" by simp
  next
    assume h: "x \<noteq> [] \<and> getElementById r x \<noteq> None"
    then have "Map_has (byId r) x"
      unfolding getElementById_def using Map_get_Some_iff [of "byId r" x] by blast
    then obtain c where "Map_has (collection c r) x" using byid by blast
    then obtain e where m: "(x, e) \<in> set (collection c r)" unfolding Map_has_def by force
    from ids [OF m] have "elemId e = x" .
    moreover from m have "e \<in> snd ` set (collection c r)" by force
    ultimately show "x \<in> set (supportedElementIds r)"
      unfolding s using h by blast
  qed
qed

lemma reachable_projectObject:
  "reachable (fst acc) \<Longrightarrow> reachable (fst (projectObject C coverage now acc obj))"
  by (auto simp: projectObject_def Let_def intro: reachable_add)

lemma reachable_projectObjects:
  "reachable (fst acc) \<Longrightarrow> reachable (fst (projectObjects C coverage now acc objs))"
  by (induction objs arbitrary: acc) (simp_all add: reachable_projectObject)

lemma projectRelationship_count:
  "length (fst (projectRelationship repo ea now supported acc i rel))
     + length (snd (projectRelationship repo ea now supported acc i rel))
   = length (fst acc) + length (snd acc)
     + (if trim (fromId rel) \<noteq> [] \<and> trim (toId rel) \<noteq> [] \<and> trim (fromId rel) \<in> set supported
           \<and> trim (toId rel) \<in> set supported then 1 else 0)"
proof -
  have a: "length (snd (addRelationship repo store rcd)) =
           length store + (case fst (addRelationship repo store rcd) of Inl e \<Rightarrow> 0 | Inr v \<Rightarrow> 1)"
    for store rcd
    by (simp add: addRelationship_def split: option.splits)
  show ?thesis
    unfolding projectRelationship_def Let_def
    by (simp add: a split: sum.splits)
qed

section \<open>The element store rejects a duplicate id\<close>

lemma addElement_byId_mono:
  "Map_has (byId r) k \<Longrightarrow> Map_has (byId (snd (addElement r ty e))) k"
  using addElement_cases [of r ty e] by (auto simp: Map_has_Map_set)

text \<open>
  Claim C6. \<open>addElement\<close> with an id that is present anywhere in the store, in the flat
  index or in any of the five collections, fails with the duplicate-id error, and the store
  it leaves is the store it found: the element stored under that id is unchanged in its
  collection and in the index.
\<close>

theorem addElement_duplicate_id:
  assumes "reachable r"
    and "Map_has (collection c r) (elemId element) \<or> Map_has (byId r) (elemId element)"
  shows "addElement r type element = (Inl (''Duplicate id: '' @ elemId element), r)"
proof -
  have "Map_has (byId r) (elemId element)"
    using assms reachable_store_inv [OF assms(1)] unfolding store_inv_def by blast
  then show ?thesis by (simp add: addElement_def)
qed

theorem addElement_duplicate_id_witness:
  "Map_has (collection Applications (typedStore repoClean)) (elemId clashingTechnology)
   \<and> addElement (typedStore repoClean) Technologies clashingTechnology
       = (Inl ''Duplicate id: a1'', typedStore repoClean)
   \<and> map_option elemName (getElementById (typedStore repoClean) ''a1'') = Some ''Billing''"
proof -
  have r: "reachable (typedStore repoClean)"
    unfolding typedStore_def by (rule reachable_projectObjects) (simp add: reachable_new)
  have h: "Map_has (collection Applications (typedStore repoClean)) (elemId clashingTechnology)"
    by code_simp
  have i: "elemId clashingTechnology = ''a1''" by (simp add: clashingTechnology_def)
  have g: "map_option elemName (getElementById (typedStore repoClean) ''a1'') = Some ''Billing''"
    by code_simp
  have "addElement (typedStore repoClean) Technologies clashingTechnology
       = (Inl ''Duplicate id: a1'', typedStore repoClean)"
    using addElement_duplicate_id [OF r disjI1 [OF h], of Technologies] i by simp
  with h g show ?thesis by (intro conjI)
qed


section \<open>The relationship store\<close>

text \<open>
  Claim C2. \<open>addRelationship\<close> succeeds exactly when both endpoint ids resolve to elements
  of the Element Store and the resolved source and target types are in the allowed sets of
  the rule for the relationship type; a \<open>DEPENDS_ON\<close> from an Application to an Application
  succeeds, and one from an Application to a Technology fails with
  \<open>EndpointTypeMismatch\<close>.
\<close>

theorem addRelationship_succeeds_iff:
  "((\<exists>rid. fst (addRelationship elements store rcd) = Inr rid) \<longleftrightarrow>
      (\<exists>source target rule.
         getElementById elements (sourceElementId rcd) = Some source \<and>
         getElementById elements (targetElementId rcd) = Some target \<and>
         getRelationshipEndpointRule (relationshipType rcd) = Some rule \<and>
         elementType source \<in> set (rule_from rule) \<and>
         elementType target \<in> set (rule_to rule)))
   \<and> (\<forall>source target.
         getElementById elements (sourceElementId rcd) = Some source \<and>
         getElementById elements (targetElementId rcd) = Some target \<and>
         relationshipType rcd = ''DEPENDS_ON'' \<and> elementType source = ''Application'' \<longrightarrow>
         (elementType target = ''Application'' \<longrightarrow>
            addRelationship elements store rcd = (Inr (relId rcd), store @ [rcd])) \<and>
         (elementType target = ''Technology'' \<longrightarrow>
            addRelationship elements store rcd =
              (Inl (EndpointTypeMismatch ''DEPENDS_ON'' (sourceElementId rcd)
                      (targetElementId rcd)), store)))"
proof (intro conjI allI impI)
  show "(\<exists>rid. fst (addRelationship elements store rcd) = Inr rid) \<longleftrightarrow>
      (\<exists>source target rule.
         getElementById elements (sourceElementId rcd) = Some source \<and>
         getElementById elements (targetElementId rcd) = Some target \<and>
         getRelationshipEndpointRule (relationshipType rcd) = Some rule \<and>
         elementType source \<in> set (rule_from rule) \<and>
         elementType target \<in> set (rule_to rule))"
    by (auto simp: addRelationship_def split: option.splits if_splits)
next
  fix source target
  assume h: "getElementById elements (sourceElementId rcd) = Some source \<and>
         getElementById elements (targetElementId rcd) = Some target \<and>
         relationshipType rcd = ''DEPENDS_ON'' \<and> elementType source = ''Application''"
  have rule: "getRelationshipEndpointRule ''DEPENDS_ON''
              = Some \<lparr>rule_from = [''Application''], rule_to = [''Application'']\<rparr>"
    by code_simp
  { assume "elementType target = ''Application''"
    with h rule show "addRelationship elements store rcd = (Inr (relId rcd), store @ [rcd])"
      by (simp add: addRelationship_def) }
  { assume "elementType target = ''Technology''"
    with h rule show "addRelationship elements store rcd =
              (Inl (EndpointTypeMismatch ''DEPENDS_ON'' (sourceElementId rcd)
                      (targetElementId rcd)), store)"
      by (simp add: addRelationship_def) }
qed

theorem addRelationship_succeeds_iff_witness:
  "getElementById (typedStore repoClean) ''a1'' \<noteq> None
   \<and> getElementById (typedStore repoClean) ''a2'' \<noteq> None
   \<and> getElementById (typedStore repoClean) ''t1'' \<noteq> None
   \<and> addRelationship (typedStore repoClean) [] (exampleRecord ''DEPENDS_ON'' ''a1'' ''a2'')
       = (Inr ''rel_0'', [exampleRecord ''DEPENDS_ON'' ''a1'' ''a2''])
   \<and> addRelationship (typedStore repoClean) [] (exampleRecord ''DEPENDS_ON'' ''a1'' ''t1'')
       = (Inl (EndpointTypeMismatch ''DEPENDS_ON'' ''a1'' ''t1''), [])
   \<and> fst (addRelationship (typedStore repoClean) [] (exampleRecord ''DEPENDS_ON'' ''a1'' ''zz''))
       = Inl UnknownEndpoint"
proof -
  let ?E = "typedStore repoClean"
  have "map_option elementType (getElementById ?E ''a1'') = Some ''Application''" by code_simp
  then obtain a1 where a1: "getElementById ?E ''a1'' = Some a1" "elementType a1 = ''Application''"
    by auto
  have "map_option elementType (getElementById ?E ''a2'') = Some ''Application''" by code_simp
  then obtain a2 where a2: "getElementById ?E ''a2'' = Some a2" "elementType a2 = ''Application''"
    by auto
  have "map_option elementType (getElementById ?E ''t1'') = Some ''Technology''" by code_simp
  then obtain t1 where t1: "getElementById ?E ''t1'' = Some t1" "elementType t1 = ''Technology''"
    by auto
  have z: "getElementById ?E ''zz'' = None" by code_simp
  have f: "sourceElementId (exampleRecord t a b) = a" "targetElementId (exampleRecord t a b) = b"
    "relationshipType (exampleRecord t a b) = t" "relId (exampleRecord t a b) = ''rel_0''" for t a b
    by (simp_all add: exampleRecord_def)
  note T = addRelationship_succeeds_iff [where elements = ?E and store = "[]"]
  have ok: "addRelationship ?E [] (exampleRecord ''DEPENDS_ON'' ''a1'' ''a2'')
       = (Inr ''rel_0'', [exampleRecord ''DEPENDS_ON'' ''a1'' ''a2''])"
    using T [where rcd = "exampleRecord ''DEPENDS_ON'' ''a1'' ''a2''", THEN conjunct2, rule_format, of a1 a2]
      a1 a2 by (simp add: f)
  have bad: "addRelationship ?E [] (exampleRecord ''DEPENDS_ON'' ''a1'' ''t1'')
       = (Inl (EndpointTypeMismatch ''DEPENDS_ON'' ''a1'' ''t1''), [])"
    using T [where rcd = "exampleRecord ''DEPENDS_ON'' ''a1'' ''t1''", THEN conjunct2, rule_format, of a1 t1]
      a1 t1 by (simp add: f)
  have "\<not> (\<exists>rid. fst (addRelationship ?E [] (exampleRecord ''DEPENDS_ON'' ''a1'' ''zz'')) = Inr rid)"
    using T [where rcd = "exampleRecord ''DEPENDS_ON'' ''a1'' ''zz''", THEN conjunct1] z by (simp add: f)
  moreover have "fst (addRelationship ?E [] (exampleRecord ''DEPENDS_ON'' ''a1'' ''zz'')) = Inl UnknownEndpoint"
    by (simp add: addRelationship_def f z a1)
  ultimately have un: "fst (addRelationship ?E [] (exampleRecord ''DEPENDS_ON'' ''a1'' ''zz'')) = Inl UnknownEndpoint"
    by simp
  from a1 a2 t1 ok bad un show ?thesis by simp
qed


section \<open>Relationships with unresolved endpoints\<close>

lemma projectRelationships_count:
  "length (fst (projectRelationships repo ea now supported acc i rels))
     + length (snd (projectRelationships repo ea now supported acc i rels))
   = length (fst acc) + length (snd acc)
     + length (filter (\<lambda>rel. trim (fromId rel) \<noteq> [] \<and> trim (toId rel) \<noteq> []
                          \<and> trim (fromId rel) \<in> set supported
                          \<and> trim (toId rel) \<in> set supported) rels)"
proof (induction rels arbitrary: acc i)
  case Nil
  then show ?case by simp
next
  case (Cons rel rels)
  show ?case
    unfolding projectRelationships.simps Cons.IH projectRelationship_count by simp
qed

text \<open>
  Claim C9. In \<open>buildGovernanceDebt\<close>, a relationship whose source or target id is blank
  or does not resolve to an element of the typed Element Store is skipped: it leaves the
  relationship store and \<open>invalidRelationshipInserts\<close> as they were. A relationship whose
  two ids resolve is handed to \<open>addRelationship\<close> and adds one record to the store or one
  entry to \<open>invalidRelationshipInserts\<close>; over the whole model, the records and the
  entries together are as many as the relationships with two resolved ids.
\<close>

theorem buildGovernanceDebt_skips_unresolved_endpoints:
  assumes "repo = fst (projectObjects C coverage now (createArchitectureRepository, [])
                         (objects ea))"
  shows "(trim (fromId rel) = [] \<or> trim (toId rel) = []
          \<or> getElementById repo (trim (fromId rel)) = None
          \<or> getElementById repo (trim (toId rel)) = None
          \<longrightarrow> projectRelationship repo ea now (supportedElementIds repo) acc i rel = acc)
       \<and> (trim (fromId rel) \<noteq> [] \<and> trim (toId rel) \<noteq> []
          \<and> getElementById repo (trim (fromId rel)) \<noteq> None
          \<and> getElementById repo (trim (toId rel)) \<noteq> None
          \<longrightarrow> length (fst (projectRelationship repo ea now (supportedElementIds repo) acc i rel))
              + length (snd (projectRelationship repo ea now (supportedElementIds repo) acc i rel))
              = Suc (length (fst acc) + length (snd acc)))
       \<and> length (fst (projectRelationships repo ea now (supportedElementIds repo) ([], []) 0
                        (relationships ea)))
         + length (invalidRelationshipInserts (buildGovernanceDebt C ea now coverage))
         = length (filter (\<lambda>rel. trim (fromId rel) \<noteq> [] \<and> trim (toId rel) \<noteq> []
                                 \<and> getElementById repo (trim (fromId rel)) \<noteq> None
                                 \<and> getElementById repo (trim (toId rel)) \<noteq> None)
                     (relationships ea))"
proof -
  have "reachable repo"
    unfolding assms by (rule reachable_projectObjects) (simp add: reachable_new)
  then have inv: "store_inv repo" by (rule reachable_store_inv)
  note sup = supportedElementIds_iff [OF inv]
  have skip: "projectRelationship repo ea now (supportedElementIds repo) acc i rel = acc"
    if "trim (fromId rel) = [] \<or> trim (toId rel) = []
          \<or> getElementById repo (trim (fromId rel)) = None
          \<or> getElementById repo (trim (toId rel)) = None"
    using that unfolding projectRelationship_def Let_def sup by auto
  have one: "length (fst (projectRelationship repo ea now (supportedElementIds repo) acc i rel))
              + length (snd (projectRelationship repo ea now (supportedElementIds repo) acc i rel))
              = Suc (length (fst acc) + length (snd acc))"
    if "trim (fromId rel) \<noteq> [] \<and> trim (toId rel) \<noteq> []
          \<and> getElementById repo (trim (fromId rel)) \<noteq> None
          \<and> getElementById repo (trim (toId rel)) \<noteq> None"
    using that unfolding projectRelationship_count sup by simp
  have inv_eq: "invalidRelationshipInserts (buildGovernanceDebt C ea now coverage)
        = snd (projectRelationships repo ea now (supportedElementIds repo) ([], []) 0
                 (relationships ea))"
    unfolding assms buildGovernanceDebt_def Let_def by simp
  have filt: "(\<lambda>rel. trim (fromId rel) \<noteq> [] \<and> trim (toId rel) \<noteq> []
                          \<and> trim (fromId rel) \<in> set (supportedElementIds repo)
                          \<and> trim (toId rel) \<in> set (supportedElementIds repo))
            = (\<lambda>rel. trim (fromId rel) \<noteq> [] \<and> trim (toId rel) \<noteq> []
                                 \<and> getElementById repo (trim (fromId rel)) \<noteq> None
                                 \<and> getElementById repo (trim (toId rel)) \<noteq> None)"
    unfolding sup by auto
  have all: "length (fst (projectRelationships repo ea now (supportedElementIds repo) ([], []) 0
                        (relationships ea)))
         + length (invalidRelationshipInserts (buildGovernanceDebt C ea now coverage))
         = length (filter (\<lambda>rel. trim (fromId rel) \<noteq> [] \<and> trim (toId rel) \<noteq> []
                                 \<and> getElementById repo (trim (fromId rel)) \<noteq> None
                                 \<and> getElementById repo (trim (toId rel)) \<noteq> None)
                     (relationships ea))"
    unfolding inv_eq projectRelationships_count filt by simp
  from skip one all show ?thesis by blast
qed

theorem buildGovernanceDebt_skips_unresolved_endpoints_witness:
  "getElementById (typedStore repoMixed) ''d1'' = None
   \<and> projectRelationship (typedStore repoMixed) repoMixed ''2024-01-01T00:00:00.000Z''
        (supportedElementIds (typedStore repoMixed)) ([], []) 1 (dependsOn ''a1'' ''d1'') = ([], [])
   \<and> length (fst (projectRelationships (typedStore repoMixed) repoMixed ''2024-01-01T00:00:00.000Z''
                     (supportedElementIds (typedStore repoMixed)) ([], []) 0 (relationships repoMixed)))
      + length (invalidRelationshipInserts
                  (buildGovernanceDebt exampleCollaborators repoMixed ''2024-01-01T00:00:00.000Z''
                     (Some ''Both''))) = 2
   \<and> invalidRelationshipInserts
        (buildGovernanceDebt exampleCollaborators repoMixed ''2024-01-01T00:00:00.000Z'' (Some ''Both''))
      = [''DEPENDS_ON a1 -> t1: EndpointTypeMismatch: DEPENDS_ON a1 -> t1'']"
proof -
  let ?now = "''2024-01-01T00:00:00.000Z''"
  have r: "typedStore repoMixed = fst (projectObjects exampleCollaborators (Some ''Both'') ?now
                       (createArchitectureRepository, []) (objects repoMixed))"
    by (simp add: typedStore_def)
  note T = buildGovernanceDebt_skips_unresolved_endpoints
             [OF r, where rel = "dependsOn ''a1'' ''d1''" and acc = "([], [])" and i = 1]
  have d: "getElementById (typedStore repoMixed) ''d1'' = None" by code_simp
  have tr: "trim (toId (dependsOn ''a1'' ''d1'')) = ''d1''" by code_simp
  have s: "projectRelationship (typedStore repoMixed) repoMixed ?now
        (supportedElementIds (typedStore repoMixed)) ([], []) 1 (dependsOn ''a1'' ''d1'') = ([], [])"
    using T [THEN conjunct1] d tr by simp
  have f: "length (filter (\<lambda>rel. trim (fromId rel) \<noteq> [] \<and> trim (toId rel) \<noteq> []
                                 \<and> getElementById (typedStore repoMixed) (trim (fromId rel)) \<noteq> None
                                 \<and> getElementById (typedStore repoMixed) (trim (toId rel)) \<noteq> None)
                     (relationships repoMixed)) = 2"
    by code_simp
  have c: "length (fst (projectRelationships (typedStore repoMixed) repoMixed ?now
                     (supportedElementIds (typedStore repoMixed)) ([], []) 0 (relationships repoMixed)))
      + length (invalidRelationshipInserts
                  (buildGovernanceDebt exampleCollaborators repoMixed ?now (Some ''Both''))) = 2"
    using T [THEN conjunct2, THEN conjunct2] f by simp
  have i: "invalidRelationshipInserts
        (buildGovernanceDebt exampleCollaborators repoMixed ?now (Some ''Both''))
      = [''DEPENDS_ON a1 -> t1: EndpointTypeMismatch: DEPENDS_ON a1 -> t1'']"
    by code_simp
  from d s c i show ?thesis by (intro conjI)
qed



section \<open>Scope check at the model-update boundary: results\<close>

lemma objects_get_None_iff: "(objects_get r i = None) = (i \<notin> set (objects_keys r))"
  by (auto simp: objects_get_def objects_keys_def find_None_iff)

lemma set_foldl_Set_add: "set (foldl (\<lambda>ids i. Set_add i ids) acc xs) = set acc \<union> set xs"
  by (induction xs arbitrary: acc) (auto simp: set_Set_add)

lemma readOnlyChange_loop_iff:
  "readOnlyChange_loop scope p n ids =
   (\<exists>i \<in> set ids.
      (\<not> isAnyObjectTypeWritableForScope scope (map_option objType (objects_get p i))
       \<or> \<not> isAnyObjectTypeWritableForScope scope (map_option objType (objects_get n i)))
      \<and> (objects_get p i = None \<or> objects_get n i = None
         \<or> objType (the (objects_get p i)) \<noteq> objType (the (objects_get n i))
         \<or> stableStringify (JObj (objAttributes (the (objects_get p i))))
            \<noteq> stableStringify (JObj (objAttributes (the (objects_get n i))))))"
  by (induction ids) (auto simp: Let_def)

lemma hasReadOnlyObjectChanges_iff:
  assumes "scope = Some ''Business Unit'' \<or> scope = Some ''Domain''"
  shows "hasReadOnlyObjectChanges (Some p) (Some n) scope =
   (\<exists>i. (objects_get p i \<noteq> None \<or> objects_get n i \<noteq> None)
      \<and> (\<not> isAnyObjectTypeWritableForScope scope (map_option objType (objects_get p i))
         \<or> \<not> isAnyObjectTypeWritableForScope scope (map_option objType (objects_get n i)))
      \<and> (objects_get p i = None \<or> objects_get n i = None
         \<or> objType (the (objects_get p i)) \<noteq> objType (the (objects_get n i))
         \<or> stableStringify (JObj (objAttributes (the (objects_get p i))))
            \<noteq> stableStringify (JObj (objAttributes (the (objects_get n i))))))"
proof -
  have ids: "set (foldl (\<lambda>ids i. Set_add i ids) (foldl (\<lambda>ids i. Set_add i ids) [] (objects_keys p)) (objects_keys n))
             = {i. objects_get p i \<noteq> None \<or> objects_get n i \<noteq> None}"
    by (auto simp: set_foldl_Set_add objects_get_None_iff)
  have "hasReadOnlyObjectChanges (Some p) (Some n) scope =
        readOnlyChange_loop scope p n
          (foldl (\<lambda>ids i. Set_add i ids) (foldl (\<lambda>ids i. Set_add i ids) [] (objects_keys p)) (objects_keys n))"
    using assms by (auto simp: hasReadOnlyObjectChanges_def)
  then show ?thesis
    unfolding readOnlyChange_loop_iff ids by blast
qed

text \<open>
  Claim C3, as amended. Under the Business Unit or the Domain scope, an update from a
  repository to a repository in which some element is added, removed, or changed in its
  type or its serialized attributes, while its type before or after is not writable for the
  scope, is rejected: the model stays as it was and the read-only message of the scope is
  shown. Under every other scope (Programme included) the boundary accepts every update,
  and an update to no repository (clearing) is accepted under every scope.
\<close>

theorem setEaRepository_rejects_read_only_change:
  "(metadata st = Some meta
    \<and> (architectureScope meta = Some ''Business Unit'' \<or> architectureScope meta = Some ''Domain'')
    \<and> eaRepository st = Some p \<and> next (Some p) = Some n
    \<and> (objects_get p i \<noteq> None \<or> objects_get n i \<noteq> None)
    \<and> (\<not> isAnyObjectTypeWritableForScope (architectureScope meta)
             (map_option objType (objects_get p i))
       \<or> \<not> isAnyObjectTypeWritableForScope (architectureScope meta)
             (map_option objType (objects_get n i)))
    \<and> (objects_get p i = None \<or> objects_get n i = None
       \<or> objType (the (objects_get p i)) \<noteq> objType (the (objects_get n i))
       \<or> stableStringify (JObj (objAttributes (the (objects_get p i))))
          \<noteq> stableStringify (JObj (objAttributes (the (objects_get n i)))))
    \<longrightarrow>
      eaRepository (setEaRepository next st) = Some p
      \<and> setEaRepository next st =
          st\<lparr>toasts := toasts st @
              [ToastWarning
                 (if architectureScope meta = Some ''Domain''
                  then ''Read-only in Domain scope: only Application + Technology layers are editable.''
                  else ''Read-only in Business Unit scope: only Business + Application layers are editable.'')]\<rparr>)
   \<and> ((case metadata st of None \<Rightarrow> None | Some m \<Rightarrow> architectureScope m) \<noteq> Some ''Business Unit''
      \<and> (case metadata st of None \<Rightarrow> None | Some m \<Rightarrow> architectureScope m) \<noteq> Some ''Domain''
      \<longrightarrow> setEaRepository next st = st\<lparr>eaRepository := next (eaRepository st)\<rparr>)
   \<and> (next (eaRepository st) = None \<longrightarrow> setEaRepository next st = st\<lparr>eaRepository := None\<rparr>)"
proof (intro conjI impI)
  assume h: "metadata st = Some meta
    \<and> (architectureScope meta = Some ''Business Unit'' \<or> architectureScope meta = Some ''Domain'')
    \<and> eaRepository st = Some p \<and> next (Some p) = Some n
    \<and> (objects_get p i \<noteq> None \<or> objects_get n i \<noteq> None)
    \<and> (\<not> isAnyObjectTypeWritableForScope (architectureScope meta)
             (map_option objType (objects_get p i))
       \<or> \<not> isAnyObjectTypeWritableForScope (architectureScope meta)
             (map_option objType (objects_get n i)))
    \<and> (objects_get p i = None \<or> objects_get n i = None
       \<or> objType (the (objects_get p i)) \<noteq> objType (the (objects_get n i))
       \<or> stableStringify (JObj (objAttributes (the (objects_get p i))))
          \<noteq> stableStringify (JObj (objAttributes (the (objects_get n i)))))"
  then have sc: "architectureScope meta = Some ''Business Unit'' \<or> architectureScope meta = Some ''Domain''"
    by blast
  have "hasReadOnlyObjectChanges (Some p) (Some n) (architectureScope meta)"
    unfolding hasReadOnlyObjectChanges_iff [OF sc] using h by blast
  with h show eq: "setEaRepository next st =
          st\<lparr>toasts := toasts st @
              [ToastWarning
                 (if architectureScope meta = Some ''Domain''
                  then ''Read-only in Domain scope: only Application + Technology layers are editable.''
                  else ''Read-only in Business Unit scope: only Business + Application layers are editable.'')]\<rparr>"
    by (simp add: setEaRepository_def Let_def)
  with h show "eaRepository (setEaRepository next st) = Some p" by simp
next
  assume "(case metadata st of None \<Rightarrow> None | Some m \<Rightarrow> architectureScope m) \<noteq> Some ''Business Unit''
      \<and> (case metadata st of None \<Rightarrow> None | Some m \<Rightarrow> architectureScope m) \<noteq> Some ''Domain''"
  then show "setEaRepository next st = st\<lparr>eaRepository := next (eaRepository st)\<rparr>"
    by (simp add: setEaRepository_def Let_def hasReadOnlyObjectChanges_def)
next
  assume "next (eaRepository st) = None"
  then show "setEaRepository next st = st\<lparr>eaRepository := None\<rparr>"
    by (simp add: setEaRepository_def Let_def)
qed

text \<open>
  Claim C3 as stated fails under the Programme scope: the attributes of a Technology
  element, a type that scope does not make writable, are changed, and the update is
  accepted without a message.
\<close>

theorem setEaRepository_programme_scope_counterexample:
  "\<not> isObjectTypeWritableForScope (Some ''Programme'') ''Technology''
   \<and> objects_get repoClean ''t1'' = Some linux
   \<and> objects_get repoRenamed ''t1'' = Some linuxRenamed
   \<and> stableStringify (JObj (objAttributes linux)) \<noteq> stableStringify (JObj (objAttributes linuxRenamed))
   \<and> eaRepository (setEaRepository (plainValue (Some repoRenamed))
         (settledState repoClean (exampleMetadata ''Advisory'' (Some ''Programme''))))
       = Some repoRenamed
   \<and> toasts (setEaRepository (plainValue (Some repoRenamed))
         (settledState repoClean (exampleMetadata ''Advisory'' (Some ''Programme'')))) = []"
  by code_simp

theorem setEaRepository_rejects_read_only_change_witness:
  "metadata (settledState repoClean (exampleMetadata ''Advisory'' (Some ''Business Unit'')))
     = Some (exampleMetadata ''Advisory'' (Some ''Business Unit''))
   \<and> objects_get repoClean ''t1'' = Some linux
   \<and> objects_get repoRenamed ''t1'' = Some linuxRenamed
   \<and> stableStringify (JObj (objAttributes linux)) \<noteq> stableStringify (JObj (objAttributes linuxRenamed))
   \<and> eaRepository (setEaRepository (plainValue (Some repoRenamed))
         (settledState repoClean (exampleMetadata ''Advisory'' (Some ''Business Unit''))))
       = Some repoClean
   \<and> toasts (setEaRepository (plainValue (Some repoRenamed))
         (settledState repoClean (exampleMetadata ''Advisory'' (Some ''Business Unit''))))
       = [ToastWarning ''Read-only in Business Unit scope: only Business + Application layers are editable.'']"
proof -
  let ?meta = "exampleMetadata ''Advisory'' (Some ''Business Unit'')"
  let ?st = "settledState repoClean ?meta"
  have m: "metadata ?st = Some ?meta" by code_simp
  have sc: "architectureScope ?meta = Some ''Business Unit''" by code_simp
  have p: "eaRepository ?st = Some repoClean" by code_simp
  have a: "objects_get repoClean ''t1'' = Some linux" by code_simp
  have b: "objects_get repoRenamed ''t1'' = Some linuxRenamed" by code_simp
  have w: "\<not> isAnyObjectTypeWritableForScope (Some ''Business Unit'') (Some ''Technology'')"
    by code_simp
  have t: "objType linux = ''Technology''" by code_simp
  have d: "stableStringify (JObj (objAttributes linux)) \<noteq> stableStringify (JObj (objAttributes linuxRenamed))"
    by code_simp
  have ts: "toasts ?st = []" by code_simp
  have hyp: "metadata ?st = Some ?meta
    \<and> (architectureScope ?meta = Some ''Business Unit'' \<or> architectureScope ?meta = Some ''Domain'')
    \<and> eaRepository ?st = Some repoClean \<and> plainValue (Some repoRenamed) (Some repoClean) = Some repoRenamed
    \<and> (objects_get repoClean ''t1'' \<noteq> None \<or> objects_get repoRenamed ''t1'' \<noteq> None)
    \<and> (\<not> isAnyObjectTypeWritableForScope (architectureScope ?meta)
             (map_option objType (objects_get repoClean ''t1''))
       \<or> \<not> isAnyObjectTypeWritableForScope (architectureScope ?meta)
             (map_option objType (objects_get repoRenamed ''t1'')))
    \<and> (objects_get repoClean ''t1'' = None \<or> objects_get repoRenamed ''t1'' = None
       \<or> objType (the (objects_get repoClean ''t1'')) \<noteq> objType (the (objects_get repoRenamed ''t1''))
       \<or> stableStringify (JObj (objAttributes (the (objects_get repoClean ''t1''))))
          \<noteq> stableStringify (JObj (objAttributes (the (objects_get repoRenamed ''t1'')))))"
    using m sc p a b w t d by (simp add: plainValue_def)
  note R = setEaRepository_rejects_read_only_change
         [of ?st ?meta repoClean "plainValue (Some repoRenamed)" repoRenamed "''t1''",
          THEN conjunct1, THEN mp, OF hyp]
  have e1: "eaRepository (setEaRepository (plainValue (Some repoRenamed)) ?st) = Some repoClean"
    by (rule R [THEN conjunct1])
  have "toasts (setEaRepository (plainValue (Some repoRenamed)) ?st) = toasts ?st @
      [ToastWarning ''Read-only in Business Unit scope: only Business + Application layers are editable.'']"
    by (subst R [THEN conjunct2]) (simp add: sc)
  then have e2: "toasts (setEaRepository (plainValue (Some repoRenamed)) ?st) =
      [ToastWarning ''Read-only in Business Unit scope: only Business + Application layers are editable.'']"
    by (simp only: ts append_Nil)
  from m a b d e1 e2 show ?thesis by (intro conjI)
qed


section \<open>The governance gate\<close>

lemma strictBranch_fields:
  "undoStack (snd (strictBranch meta debt st)) = undoStack st"
  "redoStack (snd (strictBranch meta debt st)) = redoStack st"
  "lastSerialized (snd (strictBranch meta debt st)) = lastSerialized st"
  "suppressHistory (snd (strictBranch meta debt st)) = suppressHistory st"
  "eaRepository (snd (strictBranch meta debt st)) = eaRepository st"
  "metadata (snd (strictBranch meta debt st)) = metadata st"
  "storageOps (snd (strictBranch meta debt st)) = storageOps st"
  "lastAdvisoryWarnKey (snd (strictBranch meta debt st)) = lastAdvisoryWarnKey st"
  "fst (strictBranch meta debt st) = strictBlocked (summary debt)"
  by (simp_all add: strictBranch_def Let_def)

lemma advisoryBranch_fields:
  "undoStack (advisoryBranch meta debt st) = undoStack st"
  "redoStack (advisoryBranch meta debt st) = redoStack st"
  "lastSerialized (advisoryBranch meta debt st) = lastSerialized st"
  "suppressHistory (advisoryBranch meta debt st) = suppressHistory st"
  "eaRepository (advisoryBranch meta debt st) = eaRepository st"
  "metadata (advisoryBranch meta debt st) = metadata st"
  "storageOps (advisoryBranch meta debt st) = storageOps st"
  by (simp_all add: advisoryBranch_def Let_def)

lemma advisoryBranch_log:
  "governanceLog (advisoryBranch meta debt st) =
     governanceLog st @
       (if total (summary debt) > 0 \<and> lastAdvisoryWarnKey st \<noteq> Some (debtKey (summary debt))
        then [\<lparr>logType = ''save.warned'', logGovernanceMode = ''Advisory'',
               logRepositoryName = repositoryName meta,
               logArchitectureScope = architectureScope meta,
               logSummary = summary debt, logHighlights = highlights debt\<rparr>]
        else [])"
  "lastAdvisoryWarnKey (advisoryBranch meta debt st) =
     (if total (summary debt) = 0 then None else Some (debtKey (summary debt)))"
  by (auto simp: advisoryBranch_def Let_def)

lemma trackHistory_fields:
  "eaRepository (trackHistory s st) = eaRepository st"
  "metadata (trackHistory s st) = metadata st"
  "storageOps (trackHistory s st) = storageOps st"
  "governanceLog (trackHistory s st) = governanceLog st"
  "lastAdvisoryWarnKey (trackHistory s st) = lastAdvisoryWarnKey st"
  "lastSaveBlockedKey (trackHistory s st) = lastSaveBlockedKey st"
  "lastSerialized (trackHistory s st) = Some s"
  "suppressHistory (trackHistory s st) = False"
  by (simp_all add: trackHistory_def Let_def split: option.splits)

lemma settleEffect_history:
  assumes "eaRepository st = Some repo" "metadata st = Some meta"
  shows "undoStack (settleEffect C now nowDebt st) = undoStack (trackHistory (serializeRepository repo meta now) st)"
    and "redoStack (settleEffect C now nowDebt st) = redoStack (trackHistory (serializeRepository repo meta now) st)"
    and "lastSerialized (settleEffect C now nowDebt st) = Some (serializeRepository repo meta now)"
    and "suppressHistory (settleEffect C now nowDebt st) = False"
    and "eaRepository (settleEffect C now nowDebt st) = Some repo"
    and "metadata (settleEffect C now nowDebt st) = Some meta"
  using assms
  by (simp_all add: settleEffect_def Let_def strictBranch_fields advisoryBranch_fields trackHistory_fields)

lemma settleEffect_strict_storage:
  assumes "eaRepository st = Some repo" "metadata st = Some meta" "governanceMode meta = ''Strict''"
  shows "storageOps (settleEffect C now nowDebt st) =
           (if strictBlocked (summary (buildGovernanceDebt C repo nowDebt (Some (lifecycleCoverage meta))))
            then storageOps st
            else storageOps st @ [SetItem (serializeRepository repo meta now)])"
  using assms
  by (simp add: settleEffect_def Let_def strictBranch_fields trackHistory_fields)

lemma buildGovernanceDebt_total:
  "total (summary (buildGovernanceDebt C repo now coverage)) =
     mandatoryFindingCount (summary (buildGovernanceDebt C repo now coverage))
     + relationshipErrorCount (summary (buildGovernanceDebt C repo now coverage))
     + relationshipWarningCount (summary (buildGovernanceDebt C repo now coverage))
     + invalidRelationshipInsertCount (summary (buildGovernanceDebt C repo now coverage))
     + lifecycleTagMissingCount (summary (buildGovernanceDebt C repo now coverage))"
  by (simp add: buildGovernanceDebt_def Let_def)

text \<open>
  Claim C1, as amended. In Strict mode, every settle with a repository and metadata
  recomputes the debt, whose \<open>total\<close> is the sum of the five counts, and persistence is
  withheld (no call on \<open>localStorage\<close>) exactly when one of \<open>mandatoryFindingCount\<close>,
  \<open>relationshipErrorCount\<close>, \<open>invalidRelationshipInsertCount\<close> and
  \<open>lifecycleTagMissingCount\<close> is above 0; relationship warnings alone do not block.
  Otherwise the snapshot is stored: in particular when the total is 0, also after a blocked
  settle.
\<close>

theorem strict_mode_withholds_persistence:
  assumes "eaRepository st = Some repo" and "metadata st = Some meta"
    and "governanceMode meta = ''Strict''"
    and "s = summary (buildGovernanceDebt C repo nowDebt (Some (lifecycleCoverage meta)))"
  shows "total s = mandatoryFindingCount s + relationshipErrorCount s + relationshipWarningCount s
                   + invalidRelationshipInsertCount s + lifecycleTagMissingCount s
       \<and> ((storageOps (settleEffect C now nowDebt st) = storageOps st)
            = (mandatoryFindingCount s > 0 \<or> relationshipErrorCount s > 0
               \<or> invalidRelationshipInsertCount s > 0 \<or> lifecycleTagMissingCount s > 0))
       \<and> ((storageOps (settleEffect C now nowDebt st)
              = storageOps st @ [SetItem (serializeRepository repo meta now)])
            = (mandatoryFindingCount s = 0 \<and> relationshipErrorCount s = 0
               \<and> invalidRelationshipInsertCount s = 0 \<and> lifecycleTagMissingCount s = 0))
       \<and> (total s = 0 \<longrightarrow>
            storageOps (settleEffect C now nowDebt st)
              = storageOps st @ [SetItem (serializeRepository repo meta now)])"
proof -
  have st: "storageOps (settleEffect C now nowDebt st) =
           (if strictBlocked s then storageOps st
            else storageOps st @ [SetItem (serializeRepository repo meta now)])"
    unfolding assms(4) by (rule settleEffect_strict_storage [OF assms(1,2,3)])
  have t: "total s = mandatoryFindingCount s + relationshipErrorCount s + relationshipWarningCount s
                   + invalidRelationshipInsertCount s + lifecycleTagMissingCount s"
    unfolding assms(4) by (rule buildGovernanceDebt_total)
  show ?thesis
    unfolding st using t by (auto simp: strictBlocked_def)
qed

text \<open>
  Claim C1 as stated fails on a debt of one relationship warning: the total is 1 and the
  snapshot is stored.
\<close>

theorem strict_mode_warning_only_counterexample:
  "governanceMode (exampleMetadata ''Strict'' None) = ''Strict''
   \<and> summary (buildGovernanceDebt warningCollaborators repoClean ''2024-01-02T00:00:00.000Z''
        (Some (lifecycleCoverage (exampleMetadata ''Strict'' None))))
      = \<lparr>mandatoryFindingCount = 0, relationshipErrorCount = 0, relationshipWarningCount = 1,
         invalidRelationshipInsertCount = 0, lifecycleTagMissingCount = 0, total = 1\<rparr>
   \<and> storageOps (settledState repoClean (exampleMetadata ''Strict'' None)) = []
   \<and> storageOps (settleEffect warningCollaborators ''2024-01-02T00:00:00.000Z''
        ''2024-01-02T00:00:00.000Z'' (settledState repoClean (exampleMetadata ''Strict'' None)))
      = [SetItem (serializeRepository repoClean (exampleMetadata ''Strict'' None)
                    ''2024-01-02T00:00:00.000Z'')]"
  by code_simp

theorem strict_mode_withholds_persistence_witness:
  "storageOps (settleEffect exampleCollaborators ''2024-01-02T00:00:00.000Z''
        ''2024-01-02T00:00:00.000Z'' (settledState repoOneBad (exampleMetadata ''Strict'' None)))
      = storageOps (settledState repoOneBad (exampleMetadata ''Strict'' None))
   \<and> invalidRelationshipInsertCount
        (summary (buildGovernanceDebt exampleCollaborators repoOneBad ''2024-01-02T00:00:00.000Z''
           (Some ''Both''))) = 1
   \<and> total (summary (buildGovernanceDebt exampleCollaborators repoClean ''2024-01-02T00:00:00.000Z''
           (Some ''Both''))) = 0
   \<and> storageOps (settleEffect exampleCollaborators ''2024-01-02T00:00:00.000Z''
        ''2024-01-02T00:00:00.000Z''
        ((settleEffect exampleCollaborators ''2024-01-02T00:00:00.000Z''
            ''2024-01-02T00:00:00.000Z'' (settledState repoOneBad (exampleMetadata ''Strict'' None)))
         \<lparr>eaRepository := Some repoClean\<rparr>))
      = [SetItem (serializeRepository repoClean (exampleMetadata ''Strict'' None)
                    ''2024-01-02T00:00:00.000Z'')]"
proof -
  let ?t = "''2024-01-02T00:00:00.000Z''"
  let ?m = "exampleMetadata ''Strict'' None"
  let ?st = "settledState repoOneBad ?m"
  let ?st1 = "settleEffect exampleCollaborators ?t ?t ?st"
  let ?st2 = "?st1\<lparr>eaRepository := Some repoClean\<rparr>"
  have a: "eaRepository ?st = Some repoOneBad" "metadata ?st = Some ?m" "governanceMode ?m = ''Strict''"
    "lifecycleCoverage ?m = ''Both''"
    by code_simp+
  have one: "invalidRelationshipInsertCount
        (summary (buildGovernanceDebt exampleCollaborators repoOneBad ?t (Some ''Both''))) = 1"
    by code_simp
  have zero: "total (summary (buildGovernanceDebt exampleCollaborators repoClean ?t (Some ''Both''))) = 0"
    by code_simp
  have w: "storageOps ?st1 = storageOps ?st"
    using strict_mode_withholds_persistence [OF a(1,2,3) refl, where C = exampleCollaborators and now = ?t and nowDebt = ?t,
            THEN conjunct2, THEN conjunct1] one
    by (simp add: a(4))
  have b: "eaRepository ?st2 = Some repoClean" "metadata ?st2 = Some ?m"
    using settleEffect_history(6) [OF a(1,2)] by simp_all
  have e: "storageOps ?st = []" by code_simp
  have "storageOps (settleEffect exampleCollaborators ?t ?t ?st2)
          = storageOps ?st2 @ [SetItem (serializeRepository repoClean ?m ?t)]"
    using strict_mode_withholds_persistence [OF b a(3) refl, where C = exampleCollaborators and now = ?t and nowDebt = ?t,
            THEN conjunct2, THEN conjunct2, THEN conjunct2] zero
    by (simp add: a(4))
  then have r: "storageOps (settleEffect exampleCollaborators ?t ?t ?st2)
          = [SetItem (serializeRepository repoClean ?m ?t)]"
    using w e by simp
  from w one zero r show ?thesis by (intro conjI)
qed

lemma commitEdit_advisory:
  assumes "metadata st = Some meta" "governanceMode meta = ''Advisory''"
  shows "metadata (commitEdit C e st) = Some meta"
    and "storageOps (commitEdit C e st) = storageOps st @ [SetItem (snapshotOf meta e)]"
    and "lastAdvisoryWarnKey (commitEdit C e st) =
           (if total (debtOf C meta e) = 0 then None else Some (debtKey (debtOf C meta e)))"
    and "length (warnedEntries (governanceLog (commitEdit C e st))) =
           length (warnedEntries (governanceLog st))
           + (if total (debtOf C meta e) > 0
                 \<and> lastAdvisoryWarnKey st \<noteq> Some (debtKey (debtOf C meta e)) then 1 else 0)"
proof -
  have ne: "''Advisory'' \<noteq> ''Strict''" by simp
  let ?st0 = "st\<lparr>eaRepository := Some (fst e)\<rparr>"
  let ?debt = "buildGovernanceDebt C (fst e) (snd (snd e)) (Some (lifecycleCoverage meta))"
  have eq: "commitEdit C e st =
        (advisoryBranch meta ?debt (trackHistory (snapshotOf meta e) ?st0))
          \<lparr>storageOps := storageOps (advisoryBranch meta ?debt (trackHistory (snapshotOf meta e) ?st0))
                          @ [SetItem (snapshotOf meta e)]\<rparr>"
    using assms ne by (simp add: commitEdit_def settleEffect_def Let_def snapshotOf_def)
  show "metadata (commitEdit C e st) = Some meta"
    unfolding eq using assms by (simp add: advisoryBranch_fields trackHistory_fields)
  show "storageOps (commitEdit C e st) = storageOps st @ [SetItem (snapshotOf meta e)]"
    unfolding eq by (simp add: advisoryBranch_fields trackHistory_fields)
  show "lastAdvisoryWarnKey (commitEdit C e st) =
           (if total (debtOf C meta e) = 0 then None else Some (debtKey (debtOf C meta e)))"
    unfolding eq by (simp add: advisoryBranch_log debtOf_def)
  show "length (warnedEntries (governanceLog (commitEdit C e st))) =
           length (warnedEntries (governanceLog st))
           + (if total (debtOf C meta e) > 0
                 \<and> lastAdvisoryWarnKey st \<noteq> Some (debtKey (debtOf C meta e)) then 1 else 0)"
    unfolding eq
    by (simp add: advisoryBranch_log trackHistory_fields debtOf_def warnedEntries_def)
qed

lemma advisory_run:
  assumes "metadata st = Some meta" "governanceMode meta = ''Advisory''"
    and "lastAdvisoryWarnKey st =
          (case prev of None \<Rightarrow> None
           | Some p \<Rightarrow> if total p = 0 then None else Some (debtKey p))"
  shows "length (warnedEntries (governanceLog (commitEdits C es st))) =
           length (warnedEntries (governanceLog st))
           + length (filter (\<lambda>pc. total (snd pc) > 0
                                \<and> (case fst pc of None \<Rightarrow> True
                                   | Some p \<Rightarrow> total p = 0 \<or> debtKey p \<noteq> debtKey (snd pc)))
                       (zip (prev # map Some (map (debtOf C meta) es)) (map (debtOf C meta) es)))
         \<and> storageOps (commitEdits C es st) = storageOps st @ map (\<lambda>e. SetItem (snapshotOf meta e)) es"
  using assms
proof (induction es arbitrary: st prev)
  case Nil
  then show ?case by simp
next
  case (Cons e es)
  note step = commitEdit_advisory [OF Cons.prems(1,2), of C e]
  have k: "lastAdvisoryWarnKey (commitEdit C e st) =
          (case Some (debtOf C meta e) of None \<Rightarrow> None
           | Some p \<Rightarrow> if total p = 0 then None else Some (debtKey p))"
    using step(3) by simp
  note IH = Cons.IH [OF step(1) Cons.prems(2) k]
  have c: "(lastAdvisoryWarnKey st \<noteq> Some (debtKey (debtOf C meta e)))
           = (case prev of None \<Rightarrow> True
              | Some p \<Rightarrow> total p = 0 \<or> debtKey p \<noteq> debtKey (debtOf C meta e))"
    unfolding Cons.prems(3) by (cases prev) auto
  show ?case
    using IH step(2,4) c by (cases prev) simp_all
qed

text \<open>
  Claim C8, as amended. In Advisory mode, over any sequence of settles that starts with no
  fingerprint on record, a \<open>save.warned\<close> entry is appended at exactly the settles whose
  total is above 0 and whose fingerprint differs from that of the settle before (or that
  come first, or follow a settle with total 0): a run of settles with one fingerprint
  appends one entry, a changed fingerprint one more, and a fingerprint that comes back after
  another one is logged again. Every settle stores its snapshot, whatever the debt.
\<close>

theorem advisory_warns_on_changed_fingerprint:
  assumes "metadata st = Some meta" and "governanceMode meta = ''Advisory''"
    and "lastAdvisoryWarnKey st = None"
  shows "length (warnedEntries (governanceLog (commitEdits C es st))) =
           length (warnedEntries (governanceLog st))
           + length (filter (\<lambda>pc. total (snd pc) > 0
                                \<and> (case fst pc of None \<Rightarrow> True
                                   | Some p \<Rightarrow> total p = 0 \<or> debtKey p \<noteq> debtKey (snd pc)))
                       (zip (None # map Some (map (debtOf C meta) es)) (map (debtOf C meta) es)))
         \<and> storageOps (commitEdits C es st) = storageOps st @ map (\<lambda>e. SetItem (snapshotOf meta e)) es"
  by (rule advisory_run [OF assms(1,2)]) (simp add: assms(3))

text \<open>
  Claim C8 as stated fails on the fingerprints A, B, A: two distinct fingerprints with a
  total above 0, and three \<open>save.warned\<close> entries.
\<close>

theorem advisory_repeated_fingerprint_counterexample:
  "debtKey (debtOf exampleCollaborators (exampleMetadata ''Advisory'' None)
              (editAt repoOneBad ''2024-01-02T00:00:00.000Z'')) = ''0|1|0|0|0''
   \<and> debtKey (debtOf exampleCollaborators (exampleMetadata ''Advisory'' None)
              (editAt repoTwoBad ''2024-01-03T00:00:00.000Z'')) = ''0|2|0|0|0''
   \<and> debtKey (debtOf exampleCollaborators (exampleMetadata ''Advisory'' None)
              (editAt repoOneBad ''2024-01-04T00:00:00.000Z'')) = ''0|1|0|0|0''
   \<and> map logSummary (warnedEntries (governanceLog
        (commitEdits exampleCollaborators
           [editAt repoOneBad ''2024-01-02T00:00:00.000Z'', editAt repoTwoBad ''2024-01-03T00:00:00.000Z'',
            editAt repoOneBad ''2024-01-04T00:00:00.000Z'']
           (settledState repoClean (exampleMetadata ''Advisory'' None)))))
     = [\<lparr>mandatoryFindingCount = 0, relationshipErrorCount = 0, relationshipWarningCount = 0,
          invalidRelationshipInsertCount = 1, lifecycleTagMissingCount = 0, total = 1\<rparr>,
        \<lparr>mandatoryFindingCount = 0, relationshipErrorCount = 0, relationshipWarningCount = 0,
          invalidRelationshipInsertCount = 2, lifecycleTagMissingCount = 0, total = 2\<rparr>,
        \<lparr>mandatoryFindingCount = 0, relationshipErrorCount = 0, relationshipWarningCount = 0,
          invalidRelationshipInsertCount = 1, lifecycleTagMissingCount = 0, total = 1\<rparr>]"
  by code_simp

theorem advisory_warns_on_changed_fingerprint_witness:
  "length (warnedEntries (governanceLog
        (commitEdits exampleCollaborators
           [editAt repoOneBad ''2024-01-02T00:00:00.000Z'', editAt repoOneBad ''2024-01-03T00:00:00.000Z'',
            editAt repoTwoBad ''2024-01-04T00:00:00.000Z'']
           (settledState repoClean (exampleMetadata ''Advisory'' None))))) = 2
   \<and> length (storageOps
        (commitEdits exampleCollaborators
           [editAt repoOneBad ''2024-01-02T00:00:00.000Z'', editAt repoOneBad ''2024-01-03T00:00:00.000Z'',
            editAt repoTwoBad ''2024-01-04T00:00:00.000Z'']
           (settledState repoClean (exampleMetadata ''Advisory'' None)))) = 3"
proof -
  let ?m = "exampleMetadata ''Advisory'' None"
  let ?st = "settledState repoClean ?m"
  let ?es = "[editAt repoOneBad ''2024-01-02T00:00:00.000Z'', editAt repoOneBad ''2024-01-03T00:00:00.000Z'',
            editAt repoTwoBad ''2024-01-04T00:00:00.000Z'']"
  have a: "metadata ?st = Some ?m" "governanceMode ?m = ''Advisory''" "lastAdvisoryWarnKey ?st = None"
    by code_simp+
  have l: "warnedEntries (governanceLog ?st) = []" "storageOps ?st = []" by code_simp+
  have f: "length (filter (\<lambda>pc. total (snd pc) > 0
                                \<and> (case fst pc of None \<Rightarrow> True
                                   | Some p \<Rightarrow> total p = 0 \<or> debtKey p \<noteq> debtKey (snd pc)))
                       (zip (None # map Some (map (debtOf exampleCollaborators ?m) ?es))
                            (map (debtOf exampleCollaborators ?m) ?es))) = 2"
    by code_simp
  note T = advisory_warns_on_changed_fingerprint [OF a, where C = exampleCollaborators and es = ?es]
  have w: "length (warnedEntries (governanceLog (commitEdits exampleCollaborators ?es ?st))) = 2"
    using T [THEN conjunct1] f l by simp
  have s: "length (storageOps (commitEdits exampleCollaborators ?es ?st)) = 3"
    using T [THEN conjunct2] l by simp
  from w s show ?thesis by (intro conjI)
qed


section \<open>History: the bound on the stacks\<close>

lemma length_push_undo:
  "length u \<le> HISTORY_LIMIT \<Longrightarrow> length (push_undo x u) \<le> HISTORY_LIMIT"
  by (auto simp: push_undo_def Let_def HISTORY_LIMIT_def)

lemma length_unshift_redo:
  "length r \<le> HISTORY_LIMIT \<Longrightarrow> length (unshift_redo x r) \<le> HISTORY_LIMIT"
  by (auto simp: unshift_redo_def Let_def HISTORY_LIMIT_def)

lemma lastn_rev: "drop (length xs - n) xs = rev (take n (rev xs))"
  by (simp add: rev_take)

lemma lastn_append:
  "drop (length (drop (length xs - n) xs @ ys) - n) (drop (length xs - n) xs @ ys)
   = drop (length (xs @ ys) - n) (xs @ ys)"
proof -
  have "take n (rev ys @ take n (rev xs)) = take n (rev ys @ rev xs)"
    by simp
  then have "rev (take n (rev (rev (take n (rev xs)) @ ys))) = rev (take n (rev (xs @ ys)))"
    by simp
  then show ?thesis unfolding lastn_rev .
qed

lemma push_undo_drop:
  assumes "length u \<le> HISTORY_LIMIT"
  shows "push_undo x u = drop (length (u @ [x]) - HISTORY_LIMIT) (u @ [x])"
proof (cases "length u < HISTORY_LIMIT")
  case True
  then show ?thesis by (simp add: push_undo_def Let_def)
next
  case False
  with assms have "length (u @ [x]) - HISTORY_LIMIT = Suc 0" by simp
  moreover have "length (u @ [x]) > HISTORY_LIMIT" using False by simp
  ultimately show ?thesis
    unfolding push_undo_def Let_def by (simp only: if_True drop_Suc drop_0)
qed

lemma push_undo_room: "length u < HISTORY_LIMIT \<Longrightarrow> push_undo x u = u @ [x]"
  by (simp add: push_undo_def Let_def)

lemma unshift_redo_room: "length r < HISTORY_LIMIT \<Longrightarrow> unshift_redo x r = x # r"
  by (simp add: unshift_redo_def Let_def)

lemma trackHistory_stacks:
  "undoStack (trackHistory s st) =
     (if \<not> suppressHistory st \<and> lastSerialized st \<noteq> None \<and> lastSerialized st \<noteq> Some s
      then push_undo (the (lastSerialized st)) (undoStack st) else undoStack st)"
  "redoStack (trackHistory s st) =
     (if \<not> suppressHistory st \<and> lastSerialized st \<noteq> None \<and> lastSerialized st \<noteq> Some s
      then [] else redoStack st)"
  by (auto simp: trackHistory_def Let_def split: option.splits)

lemma trackHistory_bounded:
  assumes "length (undoStack st) \<le> HISTORY_LIMIT" "length (redoStack st) \<le> HISTORY_LIMIT"
  shows "length (undoStack (trackHistory s st)) \<le> HISTORY_LIMIT"
    and "length (redoStack (trackHistory s st)) \<le> HISTORY_LIMIT"
  using assms by (simp_all add: trackHistory_stacks length_push_undo)

lemma settleEffect_bounded:
  assumes "length (undoStack st) \<le> HISTORY_LIMIT" "length (redoStack st) \<le> HISTORY_LIMIT"
  shows "length (undoStack (settleEffect C now nowDebt st)) \<le> HISTORY_LIMIT
       \<and> length (redoStack (settleEffect C now nowDebt st)) \<le> HISTORY_LIMIT"
proof (cases "eaRepository st")
  case None
  then show ?thesis using assms by (simp add: settleEffect_def)
next
  case (Some repo)
  show ?thesis
  proof (cases "metadata st")
    case None
    with Some show ?thesis using assms by (simp add: settleEffect_def)
  next
    case (Some meta)
    from settleEffect_history(1,2) [OF \<open>eaRepository st = Some repo\<close> Some]
      trackHistory_bounded [OF assms]
    show ?thesis by simp
  qed
qed

lemma applySerialized_fields:
  "undoStack (snd (applySerialized C raw st)) = undoStack st"
  "redoStack (snd (applySerialized C raw st)) = redoStack st"
  "lastSerialized (snd (applySerialized C raw st)) = lastSerialized st"
  by (simp_all add: applySerialized_def split: sum.splits)

lemma undo_stacks:
  "undoStack st \<noteq> [] \<Longrightarrow> undoStack (snd (undo C st)) = butlast (undoStack st)"
  "undoStack st \<noteq> [] \<Longrightarrow> redoStack (snd (undo C st)) =
     (case lastSerialized st of None \<Rightarrow> redoStack st
      | Some c \<Rightarrow> unshift_redo c (redoStack st))"
  "undoStack st = [] \<Longrightarrow> undo C st = (False, st\<lparr>canUndo := False\<rparr>)"
  by (simp_all add: undo_def Let_def applySerialized_fields split: option.splits)

lemma redo_stacks:
  "redoStack st \<noteq> [] \<Longrightarrow> redoStack (snd (redo C st)) = tl (redoStack st)"
  "redoStack st \<noteq> [] \<Longrightarrow> undoStack (snd (redo C st)) =
     (case lastSerialized st of None \<Rightarrow> undoStack st
      | Some c \<Rightarrow> push_undo c (undoStack st))"
  "redoStack st = [] \<Longrightarrow> redo C st = (False, st\<lparr>canRedo := False\<rparr>)"
  by (simp_all add: redo_def Let_def applySerialized_fields split: option.splits)

lemma undo_bounded:
  assumes "length (undoStack st) \<le> HISTORY_LIMIT" "length (redoStack st) \<le> HISTORY_LIMIT"
  shows "length (undoStack (snd (undo C st))) \<le> HISTORY_LIMIT
       \<and> length (redoStack (snd (undo C st))) \<le> HISTORY_LIMIT"
proof (cases "undoStack st = []")
  case True
  then show ?thesis using assms by (simp add: undo_stacks)
next
  case False
  have "length (butlast (undoStack st)) \<le> HISTORY_LIMIT" using assms(1) by simp
  with False show ?thesis using assms(2)
    by (simp add: undo_stacks length_unshift_redo split: option.splits del: length_butlast)
qed

lemma redo_bounded:
  assumes "length (undoStack st) \<le> HISTORY_LIMIT" "length (redoStack st) \<le> HISTORY_LIMIT"
  shows "length (undoStack (snd (redo C st))) \<le> HISTORY_LIMIT
       \<and> length (redoStack (snd (redo C st))) \<le> HISTORY_LIMIT"
proof (cases "redoStack st = []")
  case True
  then show ?thesis using assms by (simp add: redo_stacks)
next
  case False
  have "length (tl (redoStack st)) \<le> HISTORY_LIMIT" using assms(2) by simp
  with False show ?thesis using assms(1)
    by (simp add: redo_stacks length_push_undo split: option.splits del: length_tl)
qed

lemma commitEdit_history:
  assumes "metadata st = Some meta"
  shows "undoStack (commitEdit C e st) =
           (if \<not> suppressHistory st \<and> lastSerialized st \<noteq> None
               \<and> lastSerialized st \<noteq> Some (snapshotOf meta e)
            then push_undo (the (lastSerialized st)) (undoStack st) else undoStack st)"
    and "redoStack (commitEdit C e st) =
           (if \<not> suppressHistory st \<and> lastSerialized st \<noteq> None
               \<and> lastSerialized st \<noteq> Some (snapshotOf meta e)
            then [] else redoStack st)"
    and "lastSerialized (commitEdit C e st) = Some (snapshotOf meta e)"
    and "suppressHistory (commitEdit C e st) = False"
    and "eaRepository (commitEdit C e st) = Some (fst e)"
    and "metadata (commitEdit C e st) = Some meta"
proof -
  let ?st0 = "st\<lparr>eaRepository := Some (fst e)\<rparr>"
  have a: "eaRepository ?st0 = Some (fst e)" "metadata ?st0 = Some meta"
    using assms by simp_all
  note h = settleEffect_history [OF a, of C "fst (snd e)" "snd (snd e)"]
  show "undoStack (commitEdit C e st) =
           (if \<not> suppressHistory st \<and> lastSerialized st \<noteq> None
               \<and> lastSerialized st \<noteq> Some (snapshotOf meta e)
            then push_undo (the (lastSerialized st)) (undoStack st) else undoStack st)"
    unfolding commitEdit_def h(1) trackHistory_stacks snapshotOf_def by simp
  show "redoStack (commitEdit C e st) =
           (if \<not> suppressHistory st \<and> lastSerialized st \<noteq> None
               \<and> lastSerialized st \<noteq> Some (snapshotOf meta e)
            then [] else redoStack st)"
    unfolding commitEdit_def h(2) trackHistory_stacks snapshotOf_def by simp
  show "lastSerialized (commitEdit C e st) = Some (snapshotOf meta e)"
    unfolding commitEdit_def h(3) snapshotOf_def by simp
  show "suppressHistory (commitEdit C e st) = False"
    unfolding commitEdit_def by (rule h(4))
  show "eaRepository (commitEdit C e st) = Some (fst e)"
    unfolding commitEdit_def by (rule h(5))
  show "metadata (commitEdit C e st) = Some meta"
    unfolding commitEdit_def by (rule h(6))
qed

lemma commitEdits_undoStack:
  assumes "metadata st = Some meta" "lastSerialized st = Some s0" "\<not> suppressHistory st"
    and "length (undoStack st) \<le> HISTORY_LIMIT"
    and "adjacent_distinct (s0 # map (snapshotOf meta) es)"
  shows "undoStack (commitEdits C es st) =
           drop (length (undoStack st @ butlast (s0 # map (snapshotOf meta) es)) - HISTORY_LIMIT)
                (undoStack st @ butlast (s0 # map (snapshotOf meta) es))"
  using assms
proof (induction es arbitrary: st s0)
  case Nil
  then show ?case by simp
next
  case (Cons e es)
  let ?st1 = "commitEdit C e st"
  let ?pre = "butlast (snapshotOf meta e # map (snapshotOf meta) es)"
  note h = commitEdit_history [OF Cons.prems(1), of C e]
  have ne: "s0 \<noteq> snapshotOf meta e"
    and ad: "adjacent_distinct (snapshotOf meta e # map (snapshotOf meta) es)"
    using Cons.prems(5) by simp_all
  have u1: "undoStack ?st1 = push_undo s0 (undoStack st)"
    unfolding h(1) using Cons.prems(2,3) ne by simp
  have b1: "length (undoStack ?st1) \<le> HISTORY_LIMIT"
    unfolding u1 by (rule length_push_undo [OF Cons.prems(4)])
  have np: "\<not> suppressHistory ?st1" using h(4) by simp
  note IH = Cons.IH [OF h(6) h(3) np b1 ad]
  have d: "undoStack ?st1 =
           drop (length (undoStack st @ [s0]) - HISTORY_LIMIT) (undoStack st @ [s0])"
    unfolding u1 by (rule push_undo_drop [OF Cons.prems(4)])
  have bl: "butlast (s0 # map (snapshotOf meta) (e # es)) = [s0] @ ?pre"
    by simp
  have "undoStack (commitEdits C (e # es) st) =
        drop (length (undoStack ?st1 @ ?pre) - HISTORY_LIMIT) (undoStack ?st1 @ ?pre)"
    unfolding commitEdits.simps by (rule IH)
  also have "\<dots> = drop (length ((undoStack st @ [s0]) @ ?pre) - HISTORY_LIMIT)
                       ((undoStack st @ [s0]) @ ?pre)"
    unfolding d by (rule lastn_append)
  finally show ?case unfolding bl by (simp only: append_assoc)
qed

text \<open>
  Claim C7. The capacity is 50. Every operation keeps both stacks within it: the
  persistence effect (and so a committed edit), \<open>undo\<close> and \<open>redo\<close>; a push on a full
  stack drops its oldest entry. After edits that each change the snapshot, the undo stack
  holds the most recent snapshots before each edit, at most 50 of them; after 60 such edits
  on an empty stack it holds exactly 50, the oldest 10 gone.
\<close>

theorem history_stacks_bounded:
  assumes "length (undoStack st) \<le> HISTORY_LIMIT" and "length (redoStack st) \<le> HISTORY_LIMIT"
  shows "HISTORY_LIMIT = 50
     \<and> length (undoStack (settleEffect C now nowDebt st)) \<le> HISTORY_LIMIT
     \<and> length (redoStack (settleEffect C now nowDebt st)) \<le> HISTORY_LIMIT
     \<and> length (undoStack (commitEdit C e st)) \<le> HISTORY_LIMIT
     \<and> length (redoStack (commitEdit C e st)) \<le> HISTORY_LIMIT
     \<and> length (undoStack (snd (undo C st))) \<le> HISTORY_LIMIT
     \<and> length (redoStack (snd (undo C st))) \<le> HISTORY_LIMIT
     \<and> length (undoStack (snd (redo C st))) \<le> HISTORY_LIMIT
     \<and> length (redoStack (snd (redo C st))) \<le> HISTORY_LIMIT
     \<and> (length (undoStack st) = HISTORY_LIMIT \<longrightarrow>
          push_undo x (undoStack st) = tl (undoStack st) @ [x])
     \<and> (length (redoStack st) = HISTORY_LIMIT \<longrightarrow>
          unshift_redo x (redoStack st) = x # butlast (redoStack st))
     \<and> (metadata st = Some meta \<and> lastSerialized st = Some s0 \<and> \<not> suppressHistory st
        \<and> adjacent_distinct (s0 # map (snapshotOf meta) es) \<longrightarrow>
          undoStack (commitEdits C es st) =
            drop (length (undoStack st) + length es - HISTORY_LIMIT)
                 (undoStack st @ butlast (s0 # map (snapshotOf meta) es))
          \<and> (undoStack st = [] \<and> length es = 60 \<longrightarrow>
               length (undoStack (commitEdits C es st)) = 50
               \<and> undoStack (commitEdits C es st)
                   = drop 10 (s0 # map (snapshotOf meta) (butlast es))))"
proof -
  have lim: "HISTORY_LIMIT = 50" by (simp add: HISTORY_LIMIT_def)
  have b0: "length (undoStack (st\<lparr>eaRepository := Some (fst e)\<rparr>)) \<le> HISTORY_LIMIT"
    "length (redoStack (st\<lparr>eaRepository := Some (fst e)\<rparr>)) \<le> HISTORY_LIMIT"
    using assms by simp_all
  note ce = settleEffect_bounded [OF b0, of C "fst (snd e)" "snd (snd e)", folded commitEdit_def]
  have pu: "push_undo x (undoStack st) = tl (undoStack st) @ [x]"
    if "length (undoStack st) = HISTORY_LIMIT"
    using that by (cases "undoStack st") (simp_all add: push_undo_def Let_def HISTORY_LIMIT_def)
  have ur: "unshift_redo x (redoStack st) = x # butlast (redoStack st)"
    if "length (redoStack st) = HISTORY_LIMIT"
    using that by (cases "redoStack st") (simp_all add: unshift_redo_def Let_def HISTORY_LIMIT_def)
  have run: "undoStack (commitEdits C es st) =
            drop (length (undoStack st) + length es - HISTORY_LIMIT)
                 (undoStack st @ butlast (s0 # map (snapshotOf meta) es))
          \<and> (undoStack st = [] \<and> length es = 60 \<longrightarrow>
               length (undoStack (commitEdits C es st)) = 50
               \<and> undoStack (commitEdits C es st)
                   = drop 10 (s0 # map (snapshotOf meta) (butlast es)))"
    if h: "metadata st = Some meta \<and> lastSerialized st = Some s0 \<and> \<not> suppressHistory st
        \<and> adjacent_distinct (s0 # map (snapshotOf meta) es)"
  proof -
    from h have a: "metadata st = Some meta" "lastSerialized st = Some s0" "\<not> suppressHistory st"
      "adjacent_distinct (s0 # map (snapshotOf meta) es)" by simp_all
    have g: "undoStack (commitEdits C es st) =
            drop (length (undoStack st) + length es - HISTORY_LIMIT)
                 (undoStack st @ butlast (s0 # map (snapshotOf meta) es))"
      using commitEdits_undoStack [OF a(1,2,3) assms(1) a(4), of C] by simp
    have s: "length (undoStack (commitEdits C es st)) = 50
               \<and> undoStack (commitEdits C es st)
                   = drop 10 (s0 # map (snapshotOf meta) (butlast es))"
      if "undoStack st = [] \<and> length es = 60"
    proof -
      from that have "es \<noteq> []" by auto
      then have "butlast (s0 # map (snapshotOf meta) es) = s0 # map (snapshotOf meta) (butlast es)"
        by (simp add: map_butlast)
      with that show ?thesis unfolding g by (simp add: lim)
    qed
    from g s show ?thesis by blast
  qed
  from lim settleEffect_bounded [OF assms, of C now nowDebt] ce undo_bounded [OF assms, of C]
    redo_bounded [OF assms, of C] pu ur run
  show ?thesis by blast
qed

theorem history_stacks_bounded_witness:
  "undoStack (settledState (revision 0) (exampleMetadata ''Advisory'' None)) = []
   \<and> length sixtyEdits = 60
   \<and> adjacent_distinct
        (serializeRepository (revision 0) (exampleMetadata ''Advisory'' None) ''2024-01-01T00:00:00.000Z''
         # map (snapshotOf (exampleMetadata ''Advisory'' None)) sixtyEdits)
   \<and> length (undoStack (commitEdits exampleCollaborators sixtyEdits
                 (settledState (revision 0) (exampleMetadata ''Advisory'' None)))) = 50
   \<and> undoStack (commitEdits exampleCollaborators sixtyEdits
                 (settledState (revision 0) (exampleMetadata ''Advisory'' None)))
       = map (\<lambda>k. serializeRepository (revision k) (exampleMetadata ''Advisory'' None)
                    ''2024-01-02T00:00:00.000Z'') [10..<60]"
proof -
  let ?m = "exampleMetadata ''Advisory'' None"
  let ?st = "settledState (revision 0) ?m"
  let ?s0 = "serializeRepository (revision 0) ?m ''2024-01-01T00:00:00.000Z''"
  have a: "length (undoStack ?st) \<le> HISTORY_LIMIT" "length (redoStack ?st) \<le> HISTORY_LIMIT"
    by code_simp+
  have e: "undoStack ?st = []" by code_simp
  have l: "length sixtyEdits = 60" by code_simp
  have ad: "adjacent_distinct (?s0 # map (snapshotOf ?m) sixtyEdits)" by code_simp
  have h: "metadata ?st = Some ?m \<and> lastSerialized ?st = Some ?s0 \<and> \<not> suppressHistory ?st
        \<and> adjacent_distinct (?s0 # map (snapshotOf ?m) sixtyEdits)"
    using ad by (simp add: settledState_def initialState_def)
  have d: "drop 10 (?s0 # map (snapshotOf ?m) (butlast sixtyEdits))
           = map (\<lambda>k. serializeRepository (revision k) ?m ''2024-01-02T00:00:00.000Z'') [10..<60]"
    by code_simp
  note T = history_stacks_bounded [OF a, where C = exampleCollaborators and meta = ?m and ?s0.0 = ?s0
             and es = sixtyEdits]
  from T have "undoStack ?st = [] \<and> length sixtyEdits = 60 \<longrightarrow>
       length (undoStack (commitEdits exampleCollaborators sixtyEdits ?st)) = 50
       \<and> undoStack (commitEdits exampleCollaborators sixtyEdits ?st)
           = drop 10 (?s0 # map (snapshotOf ?m) (butlast sixtyEdits))"
    using h by blast
  with e l have "length (undoStack (commitEdits exampleCollaborators sixtyEdits ?st)) = 50"
    and "undoStack (commitEdits exampleCollaborators sixtyEdits ?st)
           = drop 10 (?s0 # map (snapshotOf ?m) (butlast sixtyEdits))"
    by blast+
  with e l ad d show ?thesis by simp
qed


section \<open>History: undo and redo\<close>

lemma applySerialized_restores:
  assumes "tryDeserializeRepository C raw = Inr (r, meta)"
  shows "applySerialized C raw st =
           (True, st\<lparr>suppressHistory := True, eaRepository := Some r, metadata := Some meta\<rparr>)"
  using assms by (simp add: applySerialized_def)

lemma undoAndSettle_step:
  assumes H: "\<forall>t. tryDeserializeRepository C (serializeRepository u meta t) = Inr (u, meta)"
    and stack: "undoStack st = us @ [s]" and s: "snapshotFor meta s u"
    and c: "lastSerialized st = Some c"
    and room: "length (redoStack st) < HISTORY_LIMIT"
  shows "undoStack (undoAndSettle C clock st) = us"
    and "redoStack (undoAndSettle C clock st) = c # redoStack st"
    and "eaRepository (undoAndSettle C clock st) = Some u"
    and "metadata (undoAndSettle C clock st) = Some meta"
    and "lastSerialized (undoAndSettle C clock st) = Some (serializeRepository u meta (fst clock))"
proof -
  from s H have d: "tryDeserializeRepository C s = Inr (u, meta)"
    unfolding snapshotFor_def by blast
  let ?st2 = "st\<lparr>undoStack := us, redoStack := c # redoStack st\<rparr>"
  let ?st3 = "?st2\<lparr>suppressHistory := True, eaRepository := Some u, metadata := Some meta,
                   lastSerialized := Some s, canUndo := (us \<noteq> []), canRedo := True\<rparr>"
  have u: "undo C st = (True, ?st3)"
    using stack c room
    by (simp add: undo_def Let_def unshift_redo_room applySerialized_restores [OF d])
  have e: "undoAndSettle C clock st = settleEffect C (fst clock) (snd clock) ?st3"
    by (simp add: undoAndSettle_def u)
  have r: "eaRepository ?st3 = Some u" "metadata ?st3 = Some meta" by simp_all
  note h = settleEffect_history [OF r, of C "fst clock" "snd clock"]
  show "undoStack (undoAndSettle C clock st) = us"
    unfolding e h(1) by (simp add: trackHistory_stacks)
  show "redoStack (undoAndSettle C clock st) = c # redoStack st"
    unfolding e h(2) by (simp add: trackHistory_stacks)
  show "eaRepository (undoAndSettle C clock st) = Some u" unfolding e by (rule h(5))
  show "metadata (undoAndSettle C clock st) = Some meta" unfolding e by (rule h(6))
  show "lastSerialized (undoAndSettle C clock st) = Some (serializeRepository u meta (fst clock))"
    unfolding e by (rule h(3))
qed

lemma redoAndSettle_step:
  assumes H: "\<forall>t. tryDeserializeRepository C (serializeRepository r meta t) = Inr (r, meta)"
    and stack: "redoStack st = s # rs" and s: "snapshotFor meta s r"
    and c: "lastSerialized st = Some c"
    and room: "length (undoStack st) < HISTORY_LIMIT"
  shows "redoStack (redoAndSettle C clock st) = rs"
    and "undoStack (redoAndSettle C clock st) = undoStack st @ [c]"
    and "eaRepository (redoAndSettle C clock st) = Some r"
    and "metadata (redoAndSettle C clock st) = Some meta"
    and "lastSerialized (redoAndSettle C clock st) = Some (serializeRepository r meta (fst clock))"
proof -
  from s H have d: "tryDeserializeRepository C s = Inr (r, meta)"
    unfolding snapshotFor_def by blast
  let ?st2 = "st\<lparr>redoStack := rs, undoStack := undoStack st @ [c]\<rparr>"
  let ?st3 = "?st2\<lparr>suppressHistory := True, eaRepository := Some r, metadata := Some meta,
                   lastSerialized := Some s, canUndo := True, canRedo := (rs \<noteq> [])\<rparr>"
  have u: "redo C st = (True, ?st3)"
    using stack c room
    by (simp add: redo_def Let_def push_undo_room applySerialized_restores [OF d])
  have e: "redoAndSettle C clock st = settleEffect C (fst clock) (snd clock) ?st3"
    by (simp add: redoAndSettle_def u)
  have r: "eaRepository ?st3 = Some r" "metadata ?st3 = Some meta" by simp_all
  note h = settleEffect_history [OF r, of C "fst clock" "snd clock"]
  show "redoStack (redoAndSettle C clock st) = rs"
    unfolding e h(2) by (simp add: trackHistory_stacks)
  show "undoStack (redoAndSettle C clock st) = undoStack st @ [c]"
    unfolding e h(1) by (simp add: trackHistory_stacks)
  show "eaRepository (redoAndSettle C clock st) = Some r" unfolding e by (rule h(5))
  show "metadata (redoAndSettle C clock st) = Some meta" unfolding e by (rule h(6))
  show "lastSerialized (redoAndSettle C clock st) = Some (serializeRepository r meta (fst clock))"
    unfolding e by (rule h(3))
qed

lemma undoAll_run:
  assumes "\<forall>r\<in>set us. \<forall>t. tryDeserializeRepository C (serializeRepository r meta t) = Inr (r, meta)"
    and "list_all2 (snapshotFor meta) ss us"
    and "undoStack st = pre @ ss"
    and "lastSerialized st = Some c" and "snapshotFor meta c cur"
    and "length clocks = length us"
    and "length (redoStack st) + length us \<le> HISTORY_LIMIT"
    and "eaRepository st = Some cur" and "metadata st = Some meta"
  shows "undoStack (undoAll C clocks st) = pre
       \<and> (\<exists>rs. redoStack (undoAll C clocks st) = rs @ redoStack st
                \<and> list_all2 (snapshotFor meta) rs (tl (us @ [cur])))
       \<and> eaRepository (undoAll C clocks st) = Some (hd (us @ [cur]))
       \<and> metadata (undoAll C clocks st) = Some meta
       \<and> (\<exists>c'. lastSerialized (undoAll C clocks st) = Some c'
                \<and> snapshotFor meta c' (hd (us @ [cur])))"
  using assms
proof (induction us arbitrary: ss st cur c clocks rule: rev_induct)
  case Nil
  then show ?case by simp
next
  case (snoc u us)
  from snoc.prems(2) obtain ss' s where ss: "ss = ss' @ [s]"
    and l2: "list_all2 (snapshotFor meta) ss' us" and su: "snapshotFor meta s u"
    by (auto simp: list_all2_append2 list_all2_Cons2)
  from snoc.prems(6) obtain clock clocks' where cl: "clocks = clock # clocks'"
    and len: "length clocks' = length us"
    by (cases clocks) auto
  let ?st1 = "undoAndSettle C clock st"
  have Hu: "\<forall>t. tryDeserializeRepository C (serializeRepository u meta t) = Inr (u, meta)"
    using snoc.prems(1) by simp
  have stack: "undoStack st = (pre @ ss') @ [s]" using snoc.prems(3) ss by simp
  have room: "length (redoStack st) < HISTORY_LIMIT" using snoc.prems(7) by simp
  note step = undoAndSettle_step [OF Hu stack su snoc.prems(4) room, of clock]
  have H': "\<forall>r\<in>set us. \<forall>t. tryDeserializeRepository C (serializeRepository r meta t) = Inr (r, meta)"
    using snoc.prems(1) by simp
  have sf: "snapshotFor meta (serializeRepository u meta (fst clock)) u"
    unfolding snapshotFor_def by blast
  have room': "length (redoStack ?st1) + length us \<le> HISTORY_LIMIT"
    unfolding step(2) using snoc.prems(7) by simp
  from snoc.IH [OF H' l2 step(1) step(5) sf len room' step(3) step(4)]
  obtain rs c' where u: "undoStack (undoAll C clocks' ?st1) = pre"
    and r: "redoStack (undoAll C clocks' ?st1) = rs @ redoStack ?st1"
    and rl: "list_all2 (snapshotFor meta) rs (tl (us @ [u]))"
    and e: "eaRepository (undoAll C clocks' ?st1) = Some (hd (us @ [u]))"
    and m: "metadata (undoAll C clocks' ?st1) = Some meta"
    and l: "lastSerialized (undoAll C clocks' ?st1) = Some c'"
    and lc: "snapshotFor meta c' (hd (us @ [u]))"
    by blast
  have eq: "undoAll C clocks st = undoAll C clocks' ?st1" by (simp add: cl)
  have r2: "redoStack (undoAll C clocks st) = (rs @ [c]) @ redoStack st"
    unfolding eq r step(2) by simp
  have tl2: "tl ((us @ [u]) @ [cur]) = tl (us @ [u]) @ [cur]" by (cases us) simp_all
  have rl2: "list_all2 (snapshotFor meta) (rs @ [c]) (tl ((us @ [u]) @ [cur]))"
    unfolding tl2 by (rule list_all2_appendI [OF rl]) (simp add: snoc.prems(5))
  have hd2: "hd ((us @ [u]) @ [cur]) = hd (us @ [u])" by (cases us) simp_all
  show ?case
    unfolding hd2 using u r2 rl2 e m l lc unfolding eq by blast
qed

lemma redoAll_run:
  assumes "\<forall>r\<in>set ts. \<forall>t. tryDeserializeRepository C (serializeRepository r meta t) = Inr (r, meta)"
    and "list_all2 (snapshotFor meta) rs ts"
    and "redoStack st = rs @ rest"
    and "lastSerialized st = Some c" and "snapshotFor meta c cur"
    and "length clocks = length ts"
    and "length (undoStack st) + length ts \<le> HISTORY_LIMIT"
    and "eaRepository st = Some cur" and "metadata st = Some meta"
  shows "redoStack (redoAll C clocks st) = rest
       \<and> eaRepository (redoAll C clocks st) = Some (last (cur # ts))
       \<and> metadata (redoAll C clocks st) = Some meta
       \<and> (\<exists>us. undoStack (redoAll C clocks st) = undoStack st @ us
                \<and> list_all2 (snapshotFor meta) us (butlast (cur # ts)))"
  using assms
proof (induction ts arbitrary: rs st cur c clocks)
  case Nil
  then show ?case by simp
next
  case (Cons t ts)
  from Cons.prems(2) obtain s rs' where rs: "rs = s # rs'"
    and l2: "list_all2 (snapshotFor meta) rs' ts" and st: "snapshotFor meta s t"
    by (auto simp: list_all2_Cons2)
  from Cons.prems(6) obtain clock clocks' where cl: "clocks = clock # clocks'"
    and len: "length clocks' = length ts"
    by (cases clocks) auto
  let ?st1 = "redoAndSettle C clock st"
  have Ht: "\<forall>t'. tryDeserializeRepository C (serializeRepository t meta t') = Inr (t, meta)"
    using Cons.prems(1) by simp
  have stack: "redoStack st = s # (rs' @ rest)" using Cons.prems(3) rs by simp
  have room: "length (undoStack st) < HISTORY_LIMIT" using Cons.prems(7) by simp
  note step = redoAndSettle_step [OF Ht stack st Cons.prems(4) room, of clock]
  have H': "\<forall>r\<in>set ts. \<forall>t. tryDeserializeRepository C (serializeRepository r meta t) = Inr (r, meta)"
    using Cons.prems(1) by simp
  have sf: "snapshotFor meta (serializeRepository t meta (fst clock)) t"
    unfolding snapshotFor_def by blast
  have room': "length (undoStack ?st1) + length ts \<le> HISTORY_LIMIT"
    unfolding step(2) using Cons.prems(7) by simp
  from Cons.IH [OF H' l2 step(1) step(5) sf len room' step(3) step(4)]
  obtain us where r: "redoStack (redoAll C clocks' ?st1) = rest"
    and e: "eaRepository (redoAll C clocks' ?st1) = Some (last (t # ts))"
    and m: "metadata (redoAll C clocks' ?st1) = Some meta"
    and u: "undoStack (redoAll C clocks' ?st1) = undoStack ?st1 @ us"
    and ul: "list_all2 (snapshotFor meta) us (butlast (t # ts))"
    by blast
  have eq: "redoAll C clocks st = redoAll C clocks' ?st1" by (simp add: cl)
  have u2: "undoStack (redoAll C clocks st) = undoStack st @ (c # us)"
    unfolding eq u step(2) by simp
  have ul2: "list_all2 (snapshotFor meta) (c # us) (butlast (cur # t # ts))"
    using ul Cons.prems(5) by simp
  have "last (cur # t # ts) = last (t # ts)" by simp
  then show ?case
    using r e m u2 ul2 unfolding eq by metis
qed

lemma commitEdits_final:
  assumes "metadata st = Some meta" "lastSerialized st = Some s0" "\<not> suppressHistory st"
    and "adjacent_distinct (s0 # map (snapshotOf meta) es)" and "es \<noteq> []"
  shows "redoStack (commitEdits C es st) = []
       \<and> eaRepository (commitEdits C es st) = Some (fst (last es))
       \<and> lastSerialized (commitEdits C es st) = Some (snapshotOf meta (last es))
       \<and> metadata (commitEdits C es st) = Some meta"
  using assms
proof (induction es arbitrary: st s0)
  case Nil
  then show ?case by simp
next
  case (Cons e es)
  note h = commitEdit_history [OF Cons.prems(1), of C e]
  have ne: "s0 \<noteq> snapshotOf meta e"
    and ad: "adjacent_distinct (snapshotOf meta e # map (snapshotOf meta) es)"
    using Cons.prems(4) by simp_all
  have r: "redoStack (commitEdit C e st) = []"
    unfolding h(2) using Cons.prems(2,3) ne by simp
  have np: "\<not> suppressHistory (commitEdit C e st)" using h(4) by simp
  show ?case
  proof (cases "es = []")
    case True
    then show ?thesis using r h(3,5,6) by simp
  next
    case False
    from Cons.IH [OF h(6) h(3) np ad False] False show ?thesis by simp
  qed
qed

lemma example_metadata_roundtrip:
  "exampleValidateRepositoryMetadata (Some (metadata_json m)) = Inr m"
  by (cases "architectureScope m")
     (simp_all add: exampleValidateRepositoryMetadata_def metadata_json_def string_field_def)

lemma example_object_roundtrip: "object_of_json (object_json ob) = Some ob"
  by (simp add: object_of_json_def object_json_def)

lemma example_relationship_roundtrip: "relationship_of_json (relationship_json r) = Some r"
  by (simp add: relationship_of_json_def relationship_json_def)

lemma example_repository_roundtrip:
  "exampleNewEaRepository (map object_json (objects r)) (map relationship_json (relationships r))
   = Inr r"
proof -
  have a: "map (\<lambda>v. the (object_of_json v)) (map object_json xs) = xs" for xs
    by (induction xs) (simp_all add: example_object_roundtrip)
  have b: "map (\<lambda>v. the (relationship_of_json v)) (map relationship_json xs) = xs" for xs
    by (induction xs) (simp_all add: example_relationship_roundtrip)
  have c: "list_all (\<lambda>v. object_of_json v \<noteq> None) (map object_json xs)" for xs
    by (induction xs) (simp_all add: example_object_roundtrip)
  have d: "list_all (\<lambda>v. relationship_of_json v \<noteq> None) (map relationship_json xs)" for xs
    by (induction xs) (simp_all add: example_relationship_roundtrip)
  show ?thesis
    unfolding exampleNewEaRepository_def by (simp only: a b c d simp_thms if_True) simp
qed

lemma example_roundtrip:
  "tryDeserializeRepository exampleCollaborators (serializeRepository r m t) = Inr (r, m)"
  by (simp add: tryDeserializeRepository_def serializeRepository_def exampleCollaborators_def
      example_metadata_roundtrip example_repository_roundtrip as_array_def)

text \<open>
  Claim C5. From a settled state, after N committed edits that each change the snapshot
  (N at most the capacity), N times \<open>undo()\<close> bring back the repository from before the
  edits and N times \<open>redo()\<close> after them bring back the repository of the last edit, with
  the metadata; the effect runs once after each successful \<open>undo()\<close> and \<open>redo()\<close>, as
  React batches the two state updates of \<open>applySerialized\<close>. The collaborators outside
  the sources are taken to read a snapshot of each repository of the run back as that
  repository. \<open>undo()\<close> on an empty undo stack returns \<open>false\<close> and leaves the
  repository and the metadata as they are.
\<close>

theorem undo_redo_round_trip:
  assumes "metadata st = Some meta" and "eaRepository st = Some r0"
    and "lastSerialized st = Some (serializeRepository r0 meta t0)"
    and "\<not> suppressHistory st"
    and "length (undoStack st) \<le> HISTORY_LIMIT"
    and "length es \<le> HISTORY_LIMIT"
    and "length undoClocks = length es" and "length redoClocks = length es"
    and "adjacent_distinct (serializeRepository r0 meta t0 # map (snapshotOf meta) es)"
    and "\<forall>r\<in>set (r0 # map fst es). \<forall>t.
           tryDeserializeRepository C (serializeRepository r meta t) = Inr (r, meta)"
  shows "eaRepository (commitEdits C es st) = Some (last (r0 # map fst es))
       \<and> eaRepository (undoAll C undoClocks (commitEdits C es st)) = Some r0
       \<and> eaRepository (redoAll C redoClocks (undoAll C undoClocks (commitEdits C es st)))
           = Some (last (r0 # map fst es))
       \<and> metadata (redoAll C redoClocks (undoAll C undoClocks (commitEdits C es st))) = Some meta
       \<and> (undoStack st' = [] \<longrightarrow>
            fst (undo C st') = False
            \<and> eaRepository (snd (undo C st')) = eaRepository st'
            \<and> metadata (snd (undo C st')) = metadata st')"
proof -
  have empty: "fst (undo C st') = False \<and> eaRepository (snd (undo C st')) = eaRepository st'
            \<and> metadata (snd (undo C st')) = metadata st'" if "undoStack st' = []"
    using that by (simp add: undo_stacks)
  have main: "eaRepository (commitEdits C es st) = Some (last (r0 # map fst es))
       \<and> eaRepository (undoAll C undoClocks (commitEdits C es st)) = Some r0
       \<and> eaRepository (redoAll C redoClocks (undoAll C undoClocks (commitEdits C es st)))
           = Some (last (r0 # map fst es))
       \<and> metadata (redoAll C redoClocks (undoAll C undoClocks (commitEdits C es st))) = Some meta"
  proof (cases "es = []")
    case True
    with assms show ?thesis by simp
  next
    case False
    let ?s0 = "serializeRepository r0 meta t0"
    let ?stN = "commitEdits C es st"
    let ?pre = "butlast (?s0 # map (snapshotOf meta) es)"
    let ?us = "r0 # map fst (butlast es)"
    let ?cur = "fst (last es)"
    let ?k = "length (undoStack st @ ?pre) - HISTORY_LIMIT"
    from commitEdits_final [OF assms(1,3,4,9) False, of C]
    have fin: "redoStack ?stN = []" "eaRepository ?stN = Some ?cur"
      "lastSerialized ?stN = Some (snapshotOf meta (last es))" "metadata ?stN = Some meta"
      by simp_all
    have lpre: "length ?pre = length es" by simp
    have len_all: "length (undoStack st @ ?pre) = length (undoStack st) + length es"
      unfolding length_append lpre ..
    then have k: "?k \<le> length (undoStack st)" using assms(6) by linarith
    have undoN: "undoStack ?stN = drop ?k (undoStack st) @ ?pre"
      unfolding commitEdits_undoStack [OF assms(1,3,4,5,9), of C] using k by simp
    have pre_eq: "?pre = ?s0 # map (snapshotOf meta) (butlast es)"
      using False by (simp add: map_butlast)
    have sf0: "snapshotFor meta ?s0 r0" unfolding snapshotFor_def by blast
    have sfe: "snapshotFor meta (snapshotOf meta e) (fst e)" for e
      unfolding snapshotFor_def snapshotOf_def by blast
    have l2: "list_all2 (snapshotFor meta) ?pre ?us"
      unfolding pre_eq by (simp add: sf0 list_all2_map1 list_all2_map2 list_all2_same sfe)
    have Hus: "\<forall>r\<in>set ?us. \<forall>t. tryDeserializeRepository C (serializeRepository r meta t) = Inr (r, meta)"
      using assms(10) by (auto dest: in_set_butlastD)
    have lenu: "length undoClocks = length ?us" using assms(7) False by simp
    have roomu: "length (redoStack ?stN) + length ?us \<le> HISTORY_LIMIT"
      unfolding fin(1) using assms(6) False by simp
    from undoAll_run [OF Hus l2 undoN fin(3) sfe lenu roomu fin(2) fin(4)]
    obtain rs c' where u: "undoStack (undoAll C undoClocks ?stN) = drop ?k (undoStack st)"
      and r: "redoStack (undoAll C undoClocks ?stN) = rs @ redoStack ?stN"
      and rl: "list_all2 (snapshotFor meta) rs (tl (?us @ [?cur]))"
      and e: "eaRepository (undoAll C undoClocks ?stN) = Some (hd (?us @ [?cur]))"
      and m: "metadata (undoAll C undoClocks ?stN) = Some meta"
      and l: "lastSerialized (undoAll C undoClocks ?stN) = Some c'"
      and lc: "snapshotFor meta c' (hd (?us @ [?cur]))"
      by blast
    have ts: "tl (?us @ [?cur]) = map fst es"
    proof -
      have "map fst (butlast es) @ [fst (last es)] = map fst (butlast es @ [last es])" by simp
      also have "\<dots> = map fst es" using False by simp
      finally show ?thesis by simp
    qed
    have e0: "eaRepository (undoAll C undoClocks ?stN) = Some r0" using e by simp
    have lc0: "snapshotFor meta c' r0" using lc by simp
    have r0: "redoStack (undoAll C undoClocks ?stN) = rs @ []" using r fin(1) by simp
    have rl0: "list_all2 (snapshotFor meta) rs (map fst es)" using rl unfolding ts .
    have Hts: "\<forall>r\<in>set (map fst es). \<forall>t. tryDeserializeRepository C (serializeRepository r meta t) = Inr (r, meta)"
      using assms(10) by simp
    have lenr: "length redoClocks = length (map fst es)" using assms(8) by simp
    have roomr: "length (undoStack (undoAll C undoClocks ?stN)) + length (map fst es) \<le> HISTORY_LIMIT"
      unfolding u length_drop length_map len_all using assms(5,6) by linarith
    from redoAll_run [OF Hts rl0 r0 l lc0 lenr roomr e0 m]
    have "eaRepository (redoAll C redoClocks (undoAll C undoClocks ?stN)) = Some (last (r0 # map fst es))"
      and "metadata (redoAll C redoClocks (undoAll C undoClocks ?stN)) = Some meta"
      by blast+
    moreover have "?cur = last (r0 # map fst es)" using False by (simp add: last_map)
    ultimately show ?thesis using fin(2) e0 by simp
  qed
  from main empty show ?thesis by blast
qed

theorem undo_redo_round_trip_witness:
  "adjacent_distinct
     (serializeRepository repoClean (exampleMetadata ''Strict'' None) ''2024-01-01T00:00:00.000Z''
      # map (snapshotOf (exampleMetadata ''Strict'' None))
          [editAt repoOneBad ''2024-01-02T00:00:00.000Z'', editAt repoTwoBad ''2024-01-03T00:00:00.000Z''])
   \<and> eaRepository (undoAll exampleCollaborators
        [(''2024-01-04T00:00:00.000Z'', ''2024-01-04T00:00:00.000Z''),
         (''2024-01-05T00:00:00.000Z'', ''2024-01-05T00:00:00.000Z'')]
        (commitEdits exampleCollaborators
           [editAt repoOneBad ''2024-01-02T00:00:00.000Z'', editAt repoTwoBad ''2024-01-03T00:00:00.000Z'']
           (settledState repoClean (exampleMetadata ''Strict'' None)))) = Some repoClean
   \<and> eaRepository (redoAll exampleCollaborators
        [(''2024-01-06T00:00:00.000Z'', ''2024-01-06T00:00:00.000Z''),
         (''2024-01-07T00:00:00.000Z'', ''2024-01-07T00:00:00.000Z'')]
        (undoAll exampleCollaborators
          [(''2024-01-04T00:00:00.000Z'', ''2024-01-04T00:00:00.000Z''),
           (''2024-01-05T00:00:00.000Z'', ''2024-01-05T00:00:00.000Z'')]
          (commitEdits exampleCollaborators
             [editAt repoOneBad ''2024-01-02T00:00:00.000Z'', editAt repoTwoBad ''2024-01-03T00:00:00.000Z'']
             (settledState repoClean (exampleMetadata ''Strict'' None))))) = Some repoTwoBad
   \<and> fst (undo exampleCollaborators (settledState repoClean (exampleMetadata ''Strict'' None))) = False
   \<and> eaRepository (snd (undo exampleCollaborators
         (settledState repoClean (exampleMetadata ''Strict'' None)))) = Some repoClean"
proof -
  let ?m = "exampleMetadata ''Strict'' None"
  let ?st = "settledState repoClean ?m"
  let ?es = "[editAt repoOneBad ''2024-01-02T00:00:00.000Z'', editAt repoTwoBad ''2024-01-03T00:00:00.000Z'']"
  let ?uc = "[(''2024-01-04T00:00:00.000Z'', ''2024-01-04T00:00:00.000Z''),
         (''2024-01-05T00:00:00.000Z'', ''2024-01-05T00:00:00.000Z'')]"
  let ?rc = "[(''2024-01-06T00:00:00.000Z'', ''2024-01-06T00:00:00.000Z''),
         (''2024-01-07T00:00:00.000Z'', ''2024-01-07T00:00:00.000Z'')]"
  have a: "metadata ?st = Some ?m" "eaRepository ?st = Some repoClean"
    "lastSerialized ?st = Some (serializeRepository repoClean ?m ''2024-01-01T00:00:00.000Z'')"
    "\<not> suppressHistory ?st" "length (undoStack ?st) \<le> HISTORY_LIMIT"
    by (simp_all add: settledState_def initialState_def)
  have b: "length ?es \<le> HISTORY_LIMIT" "length ?uc = length ?es" "length ?rc = length ?es"
    by (simp_all add: HISTORY_LIMIT_def)
  have ad: "adjacent_distinct
     (serializeRepository repoClean ?m ''2024-01-01T00:00:00.000Z'' # map (snapshotOf ?m) ?es)"
    by code_simp
  have H: "\<forall>r\<in>set (repoClean # map fst ?es). \<forall>t.
           tryDeserializeRepository exampleCollaborators (serializeRepository r ?m t) = Inr (r, ?m)"
    by (simp add: example_roundtrip)
  have l: "last (repoClean # map fst ?es) = repoTwoBad" by (simp add: editAt_def)
  have us: "undoStack ?st = []" "eaRepository ?st = Some repoClean"
    by (simp_all add: settledState_def initialState_def)
  note T = undo_redo_round_trip [OF a b ad H, where st' = ?st]
  from T l us ad show ?thesis by simp
qed


section \<open>Serialization\<close>

text \<open>
  Claim C4, as amended. With collaborators that accept the metadata and build the
  repository from the serialized objects and relationships, serializing, deserializing and
  serializing again at the same clock reading gives the same snapshot. The snapshot carries
  the time of serialization: two snapshots of one model are equal exactly when the clock
  readings are. Its keys stand in the fixed order of the fields (\<open>version\<close>,
  \<open>metadata\<close>, \<open>objects\<close>, \<open>relationships\<close>, \<open>updatedAt\<close>; \<open>id\<close>, \<open>type\<close>,
  \<open>attributes\<close>) and the attributes in the order the object holds them; no level is sorted.
\<close>

theorem serialize_round_trip_fixed_clock:
  assumes "validateRepositoryMetadata C (Some (metadata_json meta)) = Inr meta"
    and "newEaRepository C (map object_json (objects repo))
           (map relationship_json (relationships repo)) = Inr repo"
  shows "tryDeserializeRepository C (serializeRepository repo meta now) = Inr (repo, meta)
       \<and> (\<forall>repo' meta'.
            tryDeserializeRepository C (serializeRepository repo meta now) = Inr (repo', meta')
            \<longrightarrow> serializeRepository repo' meta' now = serializeRepository repo meta now
                \<and> JSON_stringify (serializeRepository repo' meta' now)
                    = JSON_stringify (serializeRepository repo meta now))
       \<and> ((serializeRepository repo meta now = serializeRepository repo meta now') = (now = now'))
       \<and> json_keys (serializeRepository repo meta now)
           = [''version'', ''metadata'', ''objects'', ''relationships'', ''updatedAt'']
       \<and> json_field (serializeRepository repo meta now) ''objects''
           = Some (JArr (map object_json (objects repo)))
       \<and> (\<forall>ob. json_keys (object_json ob) = [''id'', ''type'', ''attributes'']
                \<and> json_field (object_json ob) ''attributes'' = Some (JObj (objAttributes ob)))"
proof -
  have d: "tryDeserializeRepository C (serializeRepository repo meta now) = Inr (repo, meta)"
    using assms
    by (simp add: tryDeserializeRepository_def serializeRepository_def as_array_def)
  have t: "(serializeRepository repo meta now = serializeRepository repo meta now') = (now = now')"
    by (auto simp: serializeRepository_def)
  have k: "json_keys (serializeRepository repo meta now)
           = [''version'', ''metadata'', ''objects'', ''relationships'', ''updatedAt'']"
    by (simp add: serializeRepository_def)
  have f: "json_field (serializeRepository repo meta now) ''objects''
           = Some (JArr (map object_json (objects repo)))"
    by (simp add: serializeRepository_def)
  have ob: "json_keys (object_json ob) = [''id'', ''type'', ''attributes'']
                \<and> json_field (object_json ob) ''attributes'' = Some (JObj (objAttributes ob))" for ob
    by (simp add: object_json_def)
  from d t k f ob show ?thesis by simp
qed

text \<open>
  Claim C4 as stated fails: the snapshot of an unmodified model, read back and serialized a
  millisecond later, differs from the first; the keys of a snapshot are not in lexicographic
  order; and two repositories with the same attributes, stored in a different order (equal
  under \<open>stableStringify\<close>), have different snapshots.
\<close>

theorem serialize_not_deterministic_counterexample:
  "tryDeserializeRepository exampleCollaborators
       (serializeRepository repoClean (exampleMetadata ''Advisory'' None) ''2024-01-01T00:00:00.000Z'')
     = Inr (repoClean, exampleMetadata ''Advisory'' None)
   \<and> serializeRepository repoClean (exampleMetadata ''Advisory'' None) ''2024-01-01T00:00:00.001Z''
       \<noteq> serializeRepository repoClean (exampleMetadata ''Advisory'' None) ''2024-01-01T00:00:00.000Z''
   \<and> JSON_stringify
         (serializeRepository repoClean (exampleMetadata ''Advisory'' None) ''2024-01-01T00:00:00.001Z'')
       \<noteq> JSON_stringify
           (serializeRepository repoClean (exampleMetadata ''Advisory'' None) ''2024-01-01T00:00:00.000Z'')
   \<and> json_keys (serializeRepository repoClean (exampleMetadata ''Advisory'' None)
                   ''2024-01-01T00:00:00.000Z'')
       = [''version'', ''metadata'', ''objects'', ''relationships'', ''updatedAt'']
   \<and> \<not> localeCompare_le ''version'' ''metadata''
   \<and> stableStringify (JObj (objAttributes (hd (objects repoAB))))
       = stableStringify (JObj (objAttributes (hd (objects repoBA))))
   \<and> serializeRepository repoAB (exampleMetadata ''Advisory'' None) ''2024-01-01T00:00:00.000Z''
       \<noteq> serializeRepository repoBA (exampleMetadata ''Advisory'' None) ''2024-01-01T00:00:00.000Z''
   \<and> JSON_stringify
         (serializeRepository repoAB (exampleMetadata ''Advisory'' None) ''2024-01-01T00:00:00.000Z'')
       \<noteq> JSON_stringify
           (serializeRepository repoBA (exampleMetadata ''Advisory'' None) ''2024-01-01T00:00:00.000Z'')"
  by code_simp

theorem serialize_round_trip_fixed_clock_witness:
  "tryDeserializeRepository exampleCollaborators
       (serializeRepository repoAB (exampleMetadata ''Advisory'' None) ''2024-01-01T00:00:00.000Z'')
     = Inr (repoAB, exampleMetadata ''Advisory'' None)
   \<and> json_keys (serializeRepository repoAB (exampleMetadata ''Advisory'' None)
                   ''2024-01-01T00:00:00.000Z'')
       = [''version'', ''metadata'', ''objects'', ''relationships'', ''updatedAt'']
   \<and> json_field (object_json (hd (objects repoAB))) ''attributes''
       = Some (JObj [(''criticality'', JStr ''High''), (''name'', JStr ''Billing'')])"
proof -
  let ?m = "exampleMetadata ''Advisory'' None"
  have a: "validateRepositoryMetadata exampleCollaborators (Some (metadata_json ?m)) = Inr ?m"
    by (simp add: exampleCollaborators_def example_metadata_roundtrip)
  have b: "newEaRepository exampleCollaborators (map object_json (objects repoAB))
           (map relationship_json (relationships repoAB)) = Inr repoAB"
    by (simp add: exampleCollaborators_def example_repository_roundtrip)
  have c: "objAttributes (hd (objects repoAB))
           = [(''criticality'', JStr ''High''), (''name'', JStr ''Billing'')]"
    by (simp add: repoAB_def)
  note T = serialize_round_trip_fixed_clock [OF a b, where now = "''2024-01-01T00:00:00.000Z''"]
  have k: "json_keys (serializeRepository repoAB ?m ''2024-01-01T00:00:00.000Z'')
       = [''version'', ''metadata'', ''objects'', ''relationships'', ''updatedAt'']"
    by (rule T [THEN conjunct2, THEN conjunct2, THEN conjunct2, THEN conjunct1])
  have "json_field (object_json (hd (objects repoAB))) ''attributes''
        = Some (JObj (objAttributes (hd (objects repoAB))))"
    by (rule T [THEN conjunct2, THEN conjunct2, THEN conjunct2, THEN conjunct2, THEN conjunct2,
                 THEN spec, THEN conjunct2])
  then have f: "json_field (object_json (hd (objects repoAB))) ''attributes''
       = Some (JObj [(''criticality'', JStr ''High''), (''name'', JStr ''Billing'')])"
    unfolding c .
  from T [THEN conjunct1] k f show ?thesis by (intro conjI)
qed

end
